theory Spec2Isabelle
  imports Complex_Main
begin

section \<open>Numbers\<close>

text \<open>
  The Python sources compute with floats and ints. Floats are idealised as \<^typ>\<open>real\<close>:
  every arithmetic step is exact, so nothing below depends on binary rounding error,
  NaN or infinity. What the sources round explicitly (\<^verbatim>\<open>round(x)\<close>,
  \<^verbatim>\<open>round(x, 1)\<close>) is rounded here too, to the nearest value with ties going to the
  even neighbour, as Python 3 does.
\<close>

definition py_round :: "real \<Rightarrow> int" where
  "py_round x =
     (let f = \<lfloor>x\<rfloor>; d = x - of_int f
      in if d < 1 / 2 then f
         else if 1 / 2 < d then f + 1
         else if even f then f else f + 1)"

definition py_round_n :: "nat \<Rightarrow> real \<Rightarrow> real" where
  "py_round_n n x = of_int (py_round (x * 10 ^ n)) / 10 ^ n"

section \<open>Capacity Analyzer: risk assessment\<close>

text \<open>
  \<^verbatim>\<open>WarehouseCapacityOptimizer._assess_capacity_risk(avg_util, max_util, trend_slope)\<close>:
  three \<^verbatim>\<open>if/elif\<close> rules add to \<^verbatim>\<open>risk_score\<close> and append to
  \<^verbatim>\<open>risk_factors\<close>, then the score is mapped to a level.
\<close>

datatype risk_level = HIGH | MEDIUM | LOW | MINIMAL

record risk_assessment =
  level :: risk_level
  score :: int
  factors :: "string list"

definition utilization_rule :: "real \<Rightarrow> int \<times> string list \<Rightarrow> int \<times> string list" where
  "utilization_rule avg_util acc =
     (case acc of (risk_score, risk_factors) \<Rightarrow>
        if avg_util > 80 then (risk_score + 3, risk_factors @ [''High average utilization''])
        else if avg_util > 60 then (risk_score + 1, risk_factors @ [''Moderate utilization''])
        else (risk_score, risk_factors))"

definition peak_rule :: "real \<Rightarrow> int \<times> string list \<Rightarrow> int \<times> string list" where
  "peak_rule max_util acc =
     (case acc of (risk_score, risk_factors) \<Rightarrow>
        if max_util > 95 then (risk_score + 3, risk_factors @ [''Near capacity peaks''])
        else if max_util > 85 then (risk_score + 2, risk_factors @ [''High peak utilization''])
        else (risk_score, risk_factors))"

definition trend_rule :: "real \<Rightarrow> int \<times> string list \<Rightarrow> int \<times> string list" where
  "trend_rule slope acc =
     (case acc of (risk_score, risk_factors) \<Rightarrow>
        if slope > 1.0 then (risk_score + 2, risk_factors @ [''Rapidly increasing trend''])
        else if slope > 0.5 then (risk_score + 1, risk_factors @ [''Increasing trend''])
        else (risk_score, risk_factors))"

definition level_of_score :: "int \<Rightarrow> risk_level" where
  "level_of_score risk_score =
     (if risk_score \<ge> 5 then HIGH
      else if risk_score \<ge> 3 then MEDIUM
      else if risk_score \<ge> 1 then LOW
      else MINIMAL)"

definition assess_capacity_risk :: "real \<Rightarrow> real \<Rightarrow> real \<Rightarrow> risk_assessment" where
  "assess_capacity_risk avg_util max_util slope =
     (case trend_rule slope (peak_rule max_util (utilization_rule avg_util (0, []))) of
        (risk_score, risk_factors) \<Rightarrow>
          \<lparr> level = level_of_score risk_score,
            score = risk_score,
            factors = (if risk_factors \<noteq> [] then risk_factors else [''Low risk profile'']) \<rparr>)"

section \<open>Errors\<close>

text \<open>
  The exceptions the modelled code can raise: a missing dictionary key and a division by
  zero. A function that can raise returns \<open>py_error + 'a\<close>, with \<open>Inl\<close> for the exception.
\<close>

datatype py_error = KeyError | ZeroDivisionError

section \<open>Capacity analysis records\<close>

text \<open>
  One entry of the dictionary \<^verbatim>\<open>capacity_analysis\<close> built by
  \<^verbatim>\<open>analyze_capacity_utilization\<close>: a dictionary of five nested dictionaries. The
  dictionary of all warehouses is an association list in insertion order; a lookup
  \<^verbatim>\<open>capacity_analysis[w]\<close> is \<open>map_of\<close> and raises \<open>KeyError\<close> on \<open>None\<close>.
\<close>

type_synonym month_key = "nat \<times> nat"

record warehouse_info =
  name :: string
  max_capacity :: real
  current_inventory :: real
  available_capacity :: real
  available_capacity_pct :: real

record utilization_metrics =
  average_utilization :: real
  max_utilization :: real
  min_utilization :: real
  final_utilization :: real
  utilization_range :: real

record trend_analysis =
  trend_direction :: string
  trend_slope :: real
  volatility :: real

record timeline_data =
  months :: "month_key list"
  utilization_pct :: "real list"
  inventory_levels :: "int list"

record analysis =
  warehouse_info :: warehouse_info
  utilization_metrics :: utilization_metrics
  trend_analysis :: trend_analysis
  risk_assessment :: risk_assessment
  timeline_data :: timeline_data

type_synonym capacity_analysis = "(string \<times> analysis) list"

text \<open>
  \<^verbatim>\<open>business_rules\<close> as read from the assumptions file:
  \<^verbatim>\<open>['capacity_utilization']['optimal_range']\<close> (a pair of fractions) and the two entries
  of \<^verbatim>\<open>['transfer_recommendations']\<close>.
\<close>

record business_rules =
  optimal_range :: "real \<times> real"
  max_transfer_percentage :: real
  minimum_transfer_size :: real

section \<open>Transfer Optimizer\<close>

record transfer_state =
  source_utilization :: real
  dest_utilization :: real
  source_inventory :: real
  dest_inventory :: real

record transfer_impact =
  utilization_improvement :: real
  risk_reduction :: int
  source_util_change :: real
  dest_util_change :: real

record transfer_cost_analysis =
  estimated_transfer_cost :: real
  estimated_storage_savings :: real
  net_benefit :: real
  roi_percentage :: real

record transfer =
  transfer_id :: string
  source_warehouse :: string
  destination_warehouse :: string
  recommended_transfer :: int
  current_state :: transfer_state
  projected_state :: transfer_state
  impact_metrics :: transfer_impact
  cost_analysis :: transfer_cost_analysis
  priority :: string
  urgency :: string

text \<open>\<^verbatim>\<open>_get_distance_factor\<close>: the table, looked up in both orders, default 2.0.\<close>

definition distance_factors :: "((string \<times> string) \<times> real) list" where
  "distance_factors =
     [((''Atlanta'', ''Nashville''), 1.0),
      ((''Atlanta'', ''Chicago''), 1.5),
      ((''Atlanta'', ''NY''), 2.0),
      ((''Atlanta'', ''LA''), 3.0),
      ((''Nashville'', ''Chicago''), 1.2),
      ((''Nashville'', ''NY''), 1.8),
      ((''Nashville'', ''LA''), 2.5),
      ((''Chicago'', ''NY''), 1.5),
      ((''Chicago'', ''LA''), 2.2),
      ((''NY'', ''LA''), 3.5)]"

definition get_distance_factor :: "string \<Rightarrow> string \<Rightarrow> real" where
  "get_distance_factor source_wh dest_wh =
     (case map_of distance_factors (source_wh, dest_wh) of
        Some d \<Rightarrow> d
      | None \<Rightarrow>
          (case map_of distance_factors (dest_wh, source_wh) of
             Some d \<Rightarrow> d
           | None \<Rightarrow> 2.0))"

text \<open>\<^verbatim>\<open>_calculate_risk_reduction(source_data, new_utilization)\<close>.\<close>

definition calculate_risk_reduction :: "analysis \<Rightarrow> real \<Rightarrow> int" where
  "calculate_risk_reduction source_data new_utilization =
     (let old_risk_score = score (risk_assessment source_data);
          new_risk_score = (if new_utilization > 80 then 3
                            else if new_utilization > 60 then 1 else 0)
      in max 0 (old_risk_score - new_risk_score))"

text \<open>
  \<^verbatim>\<open>_calculate_optimal_transfer\<close>, in the order of the source. The first four definitions
  are its local variables \<^verbatim>\<open>target_util\<close>, \<^verbatim>\<open>source_excess\<close>, \<^verbatim>\<open>dest_deficit\<close> and
  \<^verbatim>\<open>max_transferable\<close>; \<open>recommended_amount\<close> is the local \<^verbatim>\<open>recommended_transfer\<close>
  after the minimum-size test and before any rounding.
\<close>

definition target_util :: "business_rules \<Rightarrow> real" where
  "target_util rules = snd (optimal_range rules) * 100"

definition source_excess :: "business_rules \<Rightarrow> analysis \<Rightarrow> real" where
  "source_excess rules source_data =
     (final_utilization (utilization_metrics source_data) - target_util rules) / 100
       * max_capacity (warehouse_info source_data)"

definition dest_deficit :: "business_rules \<Rightarrow> analysis \<Rightarrow> real" where
  "dest_deficit rules dest_data =
     (target_util rules - final_utilization (utilization_metrics dest_data)) / 100
       * max_capacity (warehouse_info dest_data)"

definition max_transferable :: "business_rules \<Rightarrow> analysis \<Rightarrow> analysis \<Rightarrow> real" where
  "max_transferable rules source_data dest_data =
     min (current_inventory (warehouse_info source_data) * max_transfer_percentage rules)
       (min (max_capacity (warehouse_info dest_data) - current_inventory (warehouse_info dest_data))
          (min (source_excess rules source_data) (dest_deficit rules dest_data)))"

definition recommended_amount :: "business_rules \<Rightarrow> analysis \<Rightarrow> analysis \<Rightarrow> real" where
  "recommended_amount rules source_data dest_data =
     (let recommended =
            max 0 (min (max_transferable rules source_data dest_data)
                       (source_excess rules source_data * 0.7))
      in if recommended < minimum_transfer_size rules then 0 else recommended)"

definition calculate_optimal_transfer ::
  "business_rules \<Rightarrow> string \<Rightarrow> analysis \<Rightarrow> string \<Rightarrow> analysis \<Rightarrow> py_error + transfer" where
  "calculate_optimal_transfer rules source_wh source_data dest_wh dest_data =
     (let source_util = final_utilization (utilization_metrics source_data);
          dest_util = final_utilization (utilization_metrics dest_data);
          source_inv = current_inventory (warehouse_info source_data);
          dest_inv = current_inventory (warehouse_info dest_data);
          source_capacity = max_capacity (warehouse_info source_data);
          dest_capacity = max_capacity (warehouse_info dest_data);
          recommended = recommended_amount rules source_data dest_data;
          new_source_inventory = source_inv - recommended;
          new_dest_inventory = dest_inv + recommended
      in if source_capacity = 0 \<or> dest_capacity = 0 then Inl ZeroDivisionError
         else
           let new_source_util = (new_source_inventory / source_capacity) * 100;
               new_dest_util = (new_dest_inventory / dest_capacity) * 100;
               improvement = (source_util - new_source_util) + (new_dest_util - dest_util);
               reduction = calculate_risk_reduction source_data new_source_util;
               distance_factor = get_distance_factor source_wh dest_wh;
               transfer_cost = recommended * 0.10 * distance_factor;
               capacity_savings = (source_util - new_source_util) / 100 * source_capacity * 0.05
           in Inr
             \<lparr> transfer_id = source_wh @ ''_to_'' @ dest_wh,
               source_warehouse = source_wh,
               destination_warehouse = dest_wh,
               recommended_transfer = py_round recommended,
               current_state =
                 \<lparr> source_utilization = py_round_n 1 source_util,
                   dest_utilization = py_round_n 1 dest_util,
                   source_inventory = source_inv,
                   dest_inventory = dest_inv \<rparr>,
               projected_state =
                 \<lparr> source_utilization = py_round_n 1 new_source_util,
                   dest_utilization = py_round_n 1 new_dest_util,
                   source_inventory = of_int (py_round new_source_inventory),
                   dest_inventory = of_int (py_round new_dest_inventory) \<rparr>,
               impact_metrics =
                 \<lparr> utilization_improvement = py_round_n 1 improvement,
                   risk_reduction = reduction,
                   source_util_change = py_round_n 1 (new_source_util - source_util),
                   dest_util_change = py_round_n 1 (new_dest_util - dest_util) \<rparr>,
               cost_analysis =
                 \<lparr> estimated_transfer_cost = py_round_n 2 transfer_cost,
                   estimated_storage_savings = py_round_n 2 capacity_savings,
                   net_benefit = py_round_n 2 (capacity_savings - transfer_cost),
                   roi_percentage =
                     (if transfer_cost > 0
                      then py_round_n 1 ((capacity_savings - transfer_cost) / transfer_cost * 100)
                      else 0) \<rparr>,
               priority = (if improvement > 10 then ''HIGH''
                           else if improvement > 5 then ''MEDIUM'' else ''LOW''),
               urgency = (if source_util > 90 then ''IMMEDIATE'' else ''PLANNED'') \<rparr>)"

text \<open>
  \<^verbatim>\<open>identify_transfer_opportunities\<close>. \<^verbatim>\<open>sorted(..., reverse=True)\<close> and
  \<^verbatim>\<open>list.sort(..., reverse=True)\<close> are stable sorts in descending key order, which is
  the stable ascending sort on the negated key. The two nested \<^verbatim>\<open>for\<close> loops are
  \<open>source_loop\<close> and \<open>dest_loop\<close>, threading the list \<^verbatim>\<open>transfer_opportunities\<close>.
\<close>

definition final_util_of :: "string \<times> analysis \<Rightarrow> real" where
  "final_util_of item = final_utilization (utilization_metrics (snd item))"

fun dest_loop ::
  "business_rules \<Rightarrow> capacity_analysis \<Rightarrow> string \<Rightarrow> analysis \<Rightarrow> string list \<Rightarrow>
   transfer list \<Rightarrow> py_error + transfer list" where
  "dest_loop rules ca source_wh source_data [] opps = Inr opps"
| "dest_loop rules ca source_wh source_data (dest_wh # rest) opps =
     (case map_of ca dest_wh of
        None \<Rightarrow> Inl KeyError
      | Some dest_data \<Rightarrow>
          if source_wh = dest_wh then dest_loop rules ca source_wh source_data rest opps
          else
            (case calculate_optimal_transfer rules source_wh source_data dest_wh dest_data of
               Inl e \<Rightarrow> Inl e
             | Inr transfer_analysis \<Rightarrow>
                 dest_loop rules ca source_wh source_data rest
                   (if recommended_transfer transfer_analysis > 0
                    then opps @ [transfer_analysis] else opps)))"

fun source_loop ::
  "business_rules \<Rightarrow> capacity_analysis \<Rightarrow> string list \<Rightarrow> string list \<Rightarrow>
   transfer list \<Rightarrow> py_error + transfer list" where
  "source_loop rules ca [] low opps = Inr opps"
| "source_loop rules ca (source_wh # rest) low opps =
     (case map_of ca source_wh of
        None \<Rightarrow> Inl KeyError
      | Some source_data \<Rightarrow>
          (case dest_loop rules ca source_wh source_data low opps of
             Inl e \<Rightarrow> Inl e
           | Inr opps' \<Rightarrow> source_loop rules ca rest low opps'))"

definition warehouses_by_util :: "capacity_analysis \<Rightarrow> capacity_analysis" where
  "warehouses_by_util ca = sort_key (\<lambda>item. - final_util_of item) ca"

definition high_util_warehouses :: "capacity_analysis \<Rightarrow> string list" where
  "high_util_warehouses ca =
     map fst (filter (\<lambda>item. final_util_of item > 70) (take 3 (warehouses_by_util ca)))"

definition low_util_warehouses :: "capacity_analysis \<Rightarrow> string list" where
  "low_util_warehouses ca =
     map fst (filter (\<lambda>item. final_util_of item < 50)
       (drop (length (warehouses_by_util ca) - 3) (warehouses_by_util ca)))"

definition identify_transfer_opportunities ::
  "business_rules \<Rightarrow> capacity_analysis \<Rightarrow> py_error + transfer list" where
  "identify_transfer_opportunities rules ca =
     (case source_loop rules ca (high_util_warehouses ca) (low_util_warehouses ca) [] of
        Inl e \<Rightarrow> Inl e
      | Inr opps \<Rightarrow>
          Inr (sort_key (\<lambda>t. - utilization_improvement (impact_metrics t)) opps))"

text \<open>
  \<^verbatim>\<open>InventoryAllocationEngine._estimate_shipping_cost\<close> of the allocation view, the one place in the
  repository with volume discounts. \<open>allocation_distance_factor\<close> stands for its own
  \<^verbatim>\<open>_get_distance_factor(warehouse, partner_region)\<close>, a table of warehouse against
  partner region.
\<close>

definition volume_discount :: "real \<Rightarrow> real" where
  "volume_discount quantity =
     (if quantity > 10000 then 0.85 else if quantity > 5000 then 0.90 else 1.0)"

definition estimate_shipping_cost :: "real \<Rightarrow> real \<Rightarrow> real" where
  "estimate_shipping_cost quantity allocation_distance_factor =
     (let base_cost_per_unit = 2.50;
          total_cost = quantity * base_cost_per_unit * allocation_distance_factor
                         * volume_discount quantity
      in py_round_n 2 total_cost)"

section \<open>Scenario Simulator: impact summary\<close>

text \<open>
  \<^verbatim>\<open>WarehouseScenarioSimulator.calculate_scenario_impact(base_analysis, scenario_analysis,
  transfers)\<close>. The three sums of \<^verbatim>\<open>cost_impact\<close> run over the argument \<^verbatim>\<open>transfers\<close>;
  the loop over \<^verbatim>\<open>base_analysis.keys()\<close> fills the dictionary \<^verbatim>\<open>utilization_changes\<close>
  and accumulates \<^verbatim>\<open>total_utilization_improvement\<close>.
\<close>

record utilization_change =
  baseline :: real
  scenario :: real
  change :: real

record cost_impact_summary =
  transfer_costs :: real
  storage_savings :: real
  net_impact :: real

record scenario_impact =
  utilization_changes :: "string \<rightharpoonup> utilization_change"
  new_alerts_generated :: int
  transfer_opportunities_created :: nat
  total_utilization_improvement :: real
  cost_impact :: cost_impact_summary

fun utilization_loop ::
  "capacity_analysis \<Rightarrow> capacity_analysis \<Rightarrow> string list \<Rightarrow> scenario_impact \<Rightarrow>
   py_error + scenario_impact" where
  "utilization_loop base scen [] im = Inr im"
| "utilization_loop base scen (wh # rest) im =
     (case map_of base wh of
        None \<Rightarrow> Inl KeyError
      | Some base_data \<Rightarrow>
          (case map_of scen wh of
             None \<Rightarrow> Inl KeyError
           | Some scenario_data \<Rightarrow>
               let base_util = final_utilization (utilization_metrics base_data);
                   scenario_util = final_utilization (utilization_metrics scenario_data)
               in utilization_loop base scen rest
                    (im\<lparr> utilization_changes :=
                           (utilization_changes im)(wh \<mapsto>
                              \<lparr> baseline = base_util,
                                scenario = scenario_util,
                                change = py_round_n 1 (scenario_util - base_util) \<rparr>),
                         total_utilization_improvement :=
                           total_utilization_improvement im + \<bar>scenario_util - base_util\<bar> \<rparr>)))"

definition calculate_scenario_impact ::
  "capacity_analysis \<Rightarrow> capacity_analysis \<Rightarrow> transfer list \<Rightarrow> py_error + scenario_impact" where
  "calculate_scenario_impact base scen transfers =
     utilization_loop base scen (map fst base)
       \<lparr> utilization_changes = Map.empty,
         new_alerts_generated = 0,
         transfer_opportunities_created = length transfers,
         total_utilization_improvement = 0,
         cost_impact =
           \<lparr> transfer_costs =
               sum_list (map (\<lambda>t. estimated_transfer_cost (cost_analysis t)) transfers),
             storage_savings =
               sum_list (map (\<lambda>t. estimated_storage_savings (cost_analysis t)) transfers),
             net_impact =
               sum_list (map (\<lambda>t. net_benefit (cost_analysis t)) transfers) \<rparr> \<rparr>"

text \<open>The final utilization entry of a warehouse of an analysis, for stating properties.\<close>

definition utilization_in :: "capacity_analysis \<Rightarrow> string \<Rightarrow> real" where
  "utilization_in ca wh =
     (case map_of ca wh of
        Some d \<Rightarrow> final_utilization (utilization_metrics d)
      | None \<Rightarrow> 0)"

text \<open>
  The specification's reading of the cost figures, for comparison with the code: the
  difference between a figure summed over the scenario's transfer set and the same figure
  summed over the baseline's transfer set.
\<close>

definition spec_cost_delta :: "(transfer \<Rightarrow> real) \<Rightarrow> transfer list \<Rightarrow> transfer list \<Rightarrow> real" where
  "spec_cost_delta figure scenario_transfers baseline_transfers =
     sum_list (map figure scenario_transfers) - sum_list (map figure baseline_transfers)"

section \<open>Rolling inventory forecast\<close>

text \<open>
  The class \<^verbatim>\<open>WarehouseProductRollingForecast\<close> of
  \<^verbatim>\<open>warehouse_product_rolling_forecast.py\<close>. Its constructor fixes the warehouses and the
  products the simulation iterates over.
\<close>

definition warehouses :: "string list" where
  "warehouses = [''Atlanta'', ''Nashville'', ''Chicago'', ''NY'', ''LA'']"

definition products :: "string list" where
  "products = [''Footwear'', ''Apparel'']"

datatype flow_type = inflows | outflows

text \<open>
  The forecaster after \<^verbatim>\<open>load_data\<close>, \<^verbatim>\<open>prepare_starting_inventory\<close>,
  \<^verbatim>\<open>prepare_training_data\<close> and \<^verbatim>\<open>train_prophet_models\<close>, which fill one entry per
  warehouse, product and flow type:

  \<^item> \<open>prophet_models\<close>: the fitted model or \<^verbatim>\<open>None\<close>; a fitted model is the function from the
    forecast month to the triple \<^verbatim>\<open>(yhat, yhat_lower, yhat_upper)\<close> that \<^verbatim>\<open>predict\<close> returns;
  \<^item> \<open>training_data\<close>: the column \<^verbatim>\<open>y\<close> of the monthly history;
  \<^item> \<open>starting_inventory\<close>: the latest inventory record;
  \<^item> \<open>warehouse_capacities\<close>: the dictionary \<^verbatim>\<open>warehouse_config\<close> of the assumptions file,
    \<open>None\<close> for a warehouse without an entry, \<open>Some None\<close> for an entry without the key
    \<^verbatim>\<open>capacity\<close>.

  Nested dictionaries keyed by warehouse, product and flow type are functions of the tuple
  of keys. Numbers are reals.
\<close>

record forecaster =
  prophet_models :: "string \<times> string \<times> flow_type \<Rightarrow> (month_key \<Rightarrow> real \<times> real \<times> real) option"
  training_data :: "string \<times> string \<times> flow_type \<Rightarrow> real list"
  starting_inventory :: "string \<times> string \<Rightarrow> real"
  warehouse_capacities :: "string \<rightharpoonup> real option"

subsection \<open>The result dictionary\<close>

text \<open>
  A dictionary keyed by month is an association list in insertion order;
  \<^verbatim>\<open>d[k] = v\<close> replaces the value of a key that is present and appends a new key.
\<close>

fun dict_set :: "'k \<Rightarrow> 'v \<Rightarrow> ('k \<times> 'v) list \<Rightarrow> ('k \<times> 'v) list" where
  "dict_set k v [] = [(k, v)]"
| "dict_set k v (kv # kvs) =
     (if fst kv = k then (k, v) # kvs else kv # dict_set k v kvs)"

record flow_forecast =
  forecast :: int
  lower :: int
  upper :: int

record net_flow_forecast =
  net_forecast :: int
  status :: string

record ledger_entry =
  starting_position :: int
  inflow :: int
  outflow :: int
  net_flow :: int
  ending_position :: int
  capacity_utilization :: real

record product_position =
  before :: int
  after :: int

text \<open>
  \<^verbatim>\<open>warehouse_monthly_position\<close>; its key \<^verbatim>\<open>capacity_utilization\<close> is set after the loop over
  the products, so it is \<open>None\<close> until then.
\<close>

record monthly_position =
  date :: month_key
  position_products :: "(string \<times> product_position) list"
  warehouse_total_before :: real
  warehouse_total_after :: real
  position_utilization :: "real option"

text \<open>
  An alert. The key \<^verbatim>\<open>message\<close>, a text formatted from the other values, is left out.
\<close>

record alert =
  warehouse :: string
  alert_date :: month_key
  alert_type :: string
  severity :: string

record network_summary =
  total_warehouses :: nat
  total_products :: nat
  network_projected_inflow :: int
  network_projected_outflow :: int
  network_net_position :: int
  final_network_inventory :: int
  warehouses_at_risk :: nat
  total_alerts :: nat

text \<open>
  The dictionary \<^verbatim>\<open>results\<close>. The entries of \<^verbatim>\<open>results['warehouses'][w]['products'][p]\<close> are
  the fields \<open>forecasts\<close>, \<open>net_flow_forecasts\<close> and \<open>rolling_inventory\<close>, the alert list of
  \<^verbatim>\<open>results['warehouses'][w]['products']['Overall']\<close> is \<open>overall_alerts\<close> (\<open>None\<close> while the key
  is absent). The time stamp of the metadata is left out.
\<close>

record results =
  forecast_horizon_months :: nat
  capacity_info :: "string \<rightharpoonup> real option"
  forecasts :: "string \<times> string \<times> flow_type \<Rightarrow> (month_key \<times> flow_forecast) list"
  net_flow_forecasts :: "string \<times> string \<Rightarrow> (month_key \<times> net_flow_forecast) list"
  rolling_inventory :: "string \<times> string \<Rightarrow> (month_key \<times> ledger_entry) list"
  overall_alerts :: "string \<Rightarrow> alert list option"
  monthly_positions :: "string \<Rightarrow> monthly_position list"
  alerts :: "alert list"
  summary :: "network_summary option"

text \<open>
  The local state of \<^verbatim>\<open>generate_rolling_forecast\<close>: the dictionaries
  \<^verbatim>\<open>current_inventory\<close> and \<^verbatim>\<open>monthly_forecasts\<close> and the results built so far.
\<close>

record simulation =
  rolling_position :: "string \<times> string \<Rightarrow> real"
  monthly_forecasts :: "string \<times> string \<times> flow_type \<Rightarrow> (month_key \<times> real \<times> real \<times> real) list"
  res :: results

subsection \<open>Loops\<close>

text \<open>
  A \<^verbatim>\<open>for\<close> loop whose body can raise: the body is applied to the elements in order, the
  first exception ends the loop.
\<close>

fun for_each :: "('a \<Rightarrow> 's \<Rightarrow> py_error + 's) \<Rightarrow> 'a list \<Rightarrow> 's \<Rightarrow> py_error + 's" where
  "for_each body [] s = Inr s"
| "for_each body (x # xs) s =
     (case body x s of Inl e \<Rightarrow> Inl e | Inr s' \<Rightarrow> for_each body xs s')"

subsection \<open>Forecast months\<close>

text \<open>
  \<^verbatim>\<open>start_date + relativedelta(months=i)\<close> for the start date 2023-01-01, printed as year and
  month.
\<close>

definition forecast_date :: "nat \<Rightarrow> month_key" where
  "forecast_date i = (2023 + i div 12, 1 + i mod 12)"

definition forecast_dates :: "nat \<Rightarrow> month_key list" where
  "forecast_dates horizon_months = map forecast_date [0..<horizon_months]"

subsection \<open>Flow prediction\<close>

definition mean :: "real list \<Rightarrow> real" where
  "mean ys = sum_list ys / real (length ys)"

text \<open>
  The prediction of one flow for one month: the model's prediction with negative values
  replaced by 0, without a model the historical average, without a history 0.
\<close>

definition predict_flow ::
  "forecaster \<Rightarrow> month_key \<Rightarrow> string \<Rightarrow> string \<Rightarrow> flow_type \<Rightarrow> real \<times> real \<times> real" where
  "predict_flow f d w p ft =
     (case prophet_models f (w, p, ft) of
        Some model \<Rightarrow>
          (case model d of (yhat, yhat_lower, yhat_upper) \<Rightarrow>
             (max 0 yhat, max 0 yhat_lower, max 0 yhat_upper))
      | None \<Rightarrow>
          (let hist_data = training_data f (w, p, ft)
           in if length hist_data > 0
              then (let predicted_value = mean hist_data
                    in (predicted_value, predicted_value * 0.8, predicted_value * 1.2))
              else (0, 0, 0)))"

definition store_prediction ::
  "forecaster \<Rightarrow> month_key \<Rightarrow> string \<Rightarrow> string \<Rightarrow> flow_type \<Rightarrow> simulation \<Rightarrow> simulation" where
  "store_prediction f d w p ft s =
     (case predict_flow f d w p ft of (predicted_value, lower_bound, upper_bound) \<Rightarrow>
        s\<lparr> monthly_forecasts := (monthly_forecasts s)
              ((w, p, ft) := dict_set d (predicted_value, lower_bound, upper_bound)
                               (monthly_forecasts s (w, p, ft))),
           res := (res s)\<lparr> forecasts := (forecasts (res s))
              ((w, p, ft) := dict_set d
                 \<lparr> forecast = py_round predicted_value, lower = py_round lower_bound,
                   upper = py_round upper_bound \<rparr>
                 (forecasts (res s) (w, p, ft))) \<rparr> \<rparr>)"

definition predict_flows :: "forecaster \<Rightarrow> month_key \<Rightarrow> simulation \<Rightarrow> simulation" where
  "predict_flows f d s =
     fold (\<lambda>w. fold (\<lambda>p. fold (store_prediction f d w p) [inflows, outflows]) products)
       warehouses s"

subsection \<open>Rolling positions\<close>

text \<open>
  \<^verbatim>\<open>self.warehouse_capacities[warehouse]['capacity']\<close>: both lookups raise \<open>KeyError\<close> on a
  missing key.
\<close>

definition capacity_of :: "forecaster \<Rightarrow> string \<Rightarrow> py_error + real" where
  "capacity_of f w =
     (case warehouse_capacities f w of
        None \<Rightarrow> Inl KeyError
      | Some None \<Rightarrow> Inl KeyError
      | Some (Some c) \<Rightarrow> Inr c)"

text \<open>
  The body of the loop over the products of one warehouse in one month: the position of the
  product moves by the net flow and is cut off at 0, the ledger entry of the month is
  recorded with every number rounded on its own, and the totals of the warehouse grow by
  the unrounded positions.
\<close>

definition update_position ::
  "forecaster \<Rightarrow> month_key \<Rightarrow> string \<Rightarrow> string \<Rightarrow> simulation \<times> monthly_position
     \<Rightarrow> py_error + simulation \<times> monthly_position" where
  "update_position f d w p sp =
     (case sp of (s, pos) \<Rightarrow>
        (case map_of (monthly_forecasts s (w, p, inflows)) d of
           None \<Rightarrow> Inl KeyError
         | Some inflow_forecast \<Rightarrow>
        (case map_of (monthly_forecasts s (w, p, outflows)) d of
           None \<Rightarrow> Inl KeyError
         | Some outflow_forecast \<Rightarrow>
        (let inflow_value = fst inflow_forecast;
             outflow_value = fst outflow_forecast;
             net = inflow_value - outflow_value;
             before_position = rolling_position s (w, p);
             after_position = max 0 (before_position + net)
         in (case capacity_of f w of
               Inl e \<Rightarrow> Inl e
             | Inr capacity \<Rightarrow>
                 if capacity = 0 then Inl ZeroDivisionError
                 else Inr
                   (s\<lparr> rolling_position := (rolling_position s)((w, p) := after_position),
                       res := (res s)
                         \<lparr> net_flow_forecasts := (net_flow_forecasts (res s))
                             ((w, p) := dict_set d
                                \<lparr> net_forecast = py_round net,
                                  status = (if net > 0 then ''SURPLUS'' else ''DEFICIT'') \<rparr>
                                (net_flow_forecasts (res s) (w, p))),
                           rolling_inventory := (rolling_inventory (res s))
                             ((w, p) := dict_set d
                                \<lparr> starting_position = py_round before_position,
                                  inflow = py_round inflow_value,
                                  outflow = py_round outflow_value,
                                  net_flow = py_round net,
                                  ending_position = py_round after_position,
                                  capacity_utilization =
                                    py_round_n 1 (after_position / capacity * 100) \<rparr>
                                (rolling_inventory (res s) (w, p))) \<rparr> \<rparr>,
                    pos\<lparr> position_products := dict_set p
                           \<lparr> before = py_round before_position,
                             after = py_round after_position \<rparr>
                           (position_products pos),
                         warehouse_total_before := warehouse_total_before pos + before_position,
                         warehouse_total_after := warehouse_total_after pos + after_position \<rparr>))))))"

text \<open>
  An alert is appended to the alerts of the results and to the alerts of the entry
  \<^verbatim>\<open>Overall\<close> of the warehouse, which is created on the first alert.
\<close>

definition emit_alert :: "string \<Rightarrow> month_key \<Rightarrow> real \<Rightarrow> simulation \<Rightarrow> simulation" where
  "emit_alert w d utilization s =
     (let a = \<lparr> warehouse = w, alert_date = d, alert_type = ''OVER_CAPACITY'',
                severity = (if utilization > 95 then ''HIGH'' else ''MEDIUM'') \<rparr>
      in s\<lparr> res := (res s)
              \<lparr> alerts := alerts (res s) @ [a],
                overall_alerts := (overall_alerts (res s))
                  (w := Some ((case overall_alerts (res s) w of None \<Rightarrow> [] | Some as \<Rightarrow> as)
                              @ [a])) \<rparr> \<rparr>)"

text \<open>
  The body of the loop over the warehouses in one month: the positions of its products, the
  utilization of the warehouse from the unrounded total, the alert above 90 percent, and
  the monthly position appended to the list of the warehouse.
\<close>

definition update_warehouse ::
  "forecaster \<Rightarrow> month_key \<Rightarrow> string \<Rightarrow> simulation \<Rightarrow> py_error + simulation" where
  "update_warehouse f d w s =
     (case for_each (update_position f d w) products
             (s, \<lparr> date = d, position_products = [], warehouse_total_before = 0,
                  warehouse_total_after = 0, position_utilization = None \<rparr>) of
        Inl e \<Rightarrow> Inl e
      | Inr (s1, pos) \<Rightarrow>
          (case capacity_of f w of
             Inl e \<Rightarrow> Inl e
           | Inr total_capacity \<Rightarrow>
               if total_capacity = 0 then Inl ZeroDivisionError
               else
                 (let utilization = warehouse_total_after pos / total_capacity * 100;
                      s2 = (if utilization > 90 then emit_alert w d utilization s1 else s1);
                      pos' = pos\<lparr> position_utilization := Some (py_round_n 1 utilization) \<rparr>
                  in Inr (s2\<lparr> res := (res s2)
                            \<lparr> monthly_positions := (monthly_positions (res s2))
                                (w := monthly_positions (res s2) w @ [pos']) \<rparr> \<rparr>))))"

definition simulate_month :: "forecaster \<Rightarrow> month_key \<Rightarrow> simulation \<Rightarrow> py_error + simulation" where
  "simulate_month f d s = for_each (update_warehouse f d) warehouses (predict_flows f d s)"

subsection \<open>Network summary\<close>

text \<open>
  Month keys are compared as the texts \<^verbatim>\<open>YYYY-MM\<close>, that is by year and then by month.
\<close>

definition month_less :: "month_key \<Rightarrow> month_key \<Rightarrow> bool" where
  "month_less a b = (fst a < fst b \<or> (fst a = fst b \<and> snd a < snd b))"

definition last_month :: "month_key list \<Rightarrow> month_key" where
  "last_month ks = fold (\<lambda>k m. if month_less m k then k else m) (tl ks) (hd ks)"

definition final_position :: "(month_key \<times> ledger_entry) list \<Rightarrow> int" where
  "final_position inventory_data =
     (if inventory_data = [] then 0
      else (case map_of inventory_data (last_month (map fst inventory_data)) of
              Some e \<Rightarrow> ending_position e
            | None \<Rightarrow> 0))"

definition per_product :: "(string \<times> string \<Rightarrow> int) \<Rightarrow> int" where
  "per_product g = sum_list (map (\<lambda>w. sum_list (map (\<lambda>p. g (w, p)) products)) warehouses)"

definition generate_network_summary :: "results \<Rightarrow> network_summary" where
  "generate_network_summary r =
     (let total_network_inflow =
            per_product (\<lambda>(w, p). sum_list (map (\<lambda>kv. forecast (snd kv)) (forecasts r (w, p, inflows))));
          total_network_outflow =
            per_product (\<lambda>(w, p). sum_list (map (\<lambda>kv. forecast (snd kv)) (forecasts r (w, p, outflows))));
          total_network_inventory =
            per_product (\<lambda>(w, p). final_position (rolling_inventory r (w, p)))
      in \<lparr> total_warehouses = length warehouses,
           total_products = length products,
           network_projected_inflow = py_round (of_int total_network_inflow),
           network_projected_outflow = py_round (of_int total_network_outflow),
           network_net_position = py_round (of_int (total_network_inflow - total_network_outflow)),
           final_network_inventory = py_round (of_int total_network_inventory),
           warehouses_at_risk = length (filter (\<lambda>a. severity a = ''HIGH'') (alerts r)),
           total_alerts = length (alerts r) \<rparr>)"

subsection \<open>The simulation\<close>

definition register_warehouse :: "forecaster \<Rightarrow> string \<Rightarrow> simulation \<Rightarrow> py_error + simulation" where
  "register_warehouse f w s =
     (case warehouse_capacities f w of
        None \<Rightarrow> Inl KeyError
      | Some info \<Rightarrow>
          Inr (s\<lparr> res := (res s)\<lparr> capacity_info := (capacity_info (res s))(w \<mapsto> info) \<rparr> \<rparr>))"

definition initial_simulation :: "forecaster \<Rightarrow> nat \<Rightarrow> simulation" where
  "initial_simulation f horizon_months =
     \<lparr> rolling_position = starting_inventory f,
       monthly_forecasts = (\<lambda>k. []),
       res = \<lparr> forecast_horizon_months = horizon_months,
               capacity_info = Map.empty,
               forecasts = (\<lambda>k. []),
               net_flow_forecasts = (\<lambda>k. []),
               rolling_inventory = (\<lambda>k. []),
               overall_alerts = (\<lambda>w. None),
               monthly_positions = (\<lambda>w. []),
               alerts = [],
               summary = None \<rparr> \<rparr>"

definition generate_rolling_forecast :: "forecaster \<Rightarrow> nat \<Rightarrow> py_error + results" where
  "generate_rolling_forecast f horizon_months =
     (case for_each (register_warehouse f) warehouses (initial_simulation f horizon_months) of
        Inl e \<Rightarrow> Inl e
      | Inr s0 \<Rightarrow>
          (case for_each (simulate_month f) (forecast_dates horizon_months) s0 of
             Inl e \<Rightarrow> Inl e
           | Inr s \<Rightarrow> Inr ((res s)\<lparr> summary := Some (generate_network_summary (res s)) \<rparr>)))"

subsection \<open>Carried positions\<close>

text \<open>
  The unrounded position of a product after the first \<open>i\<close> forecast months, as the
  dictionary \<^verbatim>\<open>current_inventory\<close> carries it from month to month, and the unrounded flows
  of month \<open>i\<close>.
\<close>

definition inflow_of :: "forecaster \<Rightarrow> string \<Rightarrow> string \<Rightarrow> nat \<Rightarrow> real" where
  "inflow_of f w p i = fst (predict_flow f (forecast_date i) w p inflows)"

definition outflow_of :: "forecaster \<Rightarrow> string \<Rightarrow> string \<Rightarrow> nat \<Rightarrow> real" where
  "outflow_of f w p i = fst (predict_flow f (forecast_date i) w p outflows)"

fun carried_position :: "forecaster \<Rightarrow> string \<Rightarrow> string \<Rightarrow> nat \<Rightarrow> real" where
  "carried_position f w p 0 = starting_inventory f (w, p)"
| "carried_position f w p (Suc i) =
     max 0 (carried_position f w p i + (inflow_of f w p i - outflow_of f w p i))"

subsection \<open>Example forecasters\<close>

text \<open>
  A forecaster without fitted models and without history, so that every flow is forecast
  as 0, with the given starting inventory and capacity 100 for every warehouse.
\<close>

definition idle_forecaster :: "(string \<times> string \<Rightarrow> real) \<Rightarrow> forecaster" where
  "idle_forecaster inventory =
     \<lparr> prophet_models = (\<lambda>k. None),
       training_data = (\<lambda>k. []),
       starting_inventory = inventory,
       warehouse_capacities = (\<lambda>w. Some (Some 100)) \<rparr>"

text \<open>
  A forecaster whose history gives Atlanta footwear a mean inflow of 1.4 and a mean outflow
  of 0.8 a month, starting from an empty network.
\<close>

definition trickle_forecaster :: forecaster where
  "trickle_forecaster =
     \<lparr> prophet_models = (\<lambda>k. None),
       training_data = (\<lambda>k.
          if k = (''Atlanta'', ''Footwear'', inflows) then [1, 1, 1, 2, 2]
          else if k = (''Atlanta'', ''Footwear'', outflows) then [1, 1, 1, 1, 0]
          else []),
       starting_inventory = (\<lambda>k. 0),
       warehouse_capacities = (\<lambda>w. Some (Some 100)) \<rparr>"

text \<open>
  An idle network in which Atlanta holds 96 units of footwear against its capacity of 100.
\<close>

definition full_atlanta :: forecaster where
  "full_atlanta =
     idle_forecaster (\<lambda>k. if k = (''Atlanta'', ''Footwear'') then 96 else 0)"

text \<open>
  The ledger entry that a simulation which returned has recorded for a product in the
  \<open>i\<close>-th forecast month.
\<close>

definition recorded :: "py_error + results \<Rightarrow> string \<Rightarrow> string \<Rightarrow> nat \<Rightarrow> ledger_entry" where
  "recorded run w p i = the (map_of (rolling_inventory (projr run) (w, p)) (forecast_date i))"

subsection \<open>The simulation in closed form\<close>

text \<open>
  The values the simulation records, as functions of the forecaster and the number of the
  month: the capacity of a warehouse, the ledger entry of a product, the unrounded total of
  a warehouse after the month, its utilization and the alerts of the month.
\<close>

definition the_capacity :: "forecaster \<Rightarrow> string \<Rightarrow> real" where
  "the_capacity f w = (case capacity_of f w of Inr c \<Rightarrow> c | Inl e \<Rightarrow> 0)"

definition ledger :: "forecaster \<Rightarrow> string \<Rightarrow> string \<Rightarrow> nat \<Rightarrow> month_key \<times> ledger_entry" where
  "ledger f w p i =
     (forecast_date i,
      \<lparr> starting_position = py_round (carried_position f w p i),
        inflow = py_round (inflow_of f w p i),
        outflow = py_round (outflow_of f w p i),
        net_flow = py_round (inflow_of f w p i - outflow_of f w p i),
        ending_position = py_round (carried_position f w p (Suc i)),
        capacity_utilization =
          py_round_n 1 (carried_position f w p (Suc i) / the_capacity f w * 100) \<rparr>)"

definition total_after :: "forecaster \<Rightarrow> string \<Rightarrow> nat \<Rightarrow> real" where
  "total_after f w i = sum_list (map (\<lambda>p. carried_position f w p (Suc i)) products)"

definition utilization_of :: "forecaster \<Rightarrow> string \<Rightarrow> nat \<Rightarrow> real" where
  "utilization_of f w i = total_after f w i / the_capacity f w * 100"

definition alert_for :: "forecaster \<Rightarrow> nat \<Rightarrow> string \<Rightarrow> alert list" where
  "alert_for f i w =
     (if utilization_of f w i > 90
      then [\<lparr> warehouse = w, alert_date = forecast_date i, alert_type = ''OVER_CAPACITY'',
              severity = (if utilization_of f w i > 95 then ''HIGH'' else ''MEDIUM'') \<rparr>]
      else [])"

definition month_alerts :: "forecaster \<Rightarrow> nat \<Rightarrow> alert list" where
  "month_alerts f i = concat (map (alert_for f i) warehouses)"

text \<open>
  The state of the simulation in month \<open>k\<close>: the positions and ledgers of the products in
  \<open>D\<close> have taken the month in, the others not yet; the same for the monthly positions and
  alerts of the warehouses \<open>ws\<close>; and the forecasts of the month are stored.
\<close>

definition positions_inv :: "forecaster \<Rightarrow> nat \<Rightarrow> (string \<times> string) set \<Rightarrow> simulation \<Rightarrow> bool" where
  "positions_inv f k D s \<longleftrightarrow>
     (\<forall>w \<in> set warehouses. \<forall>p \<in> set products.
        rolling_position s (w, p) = carried_position f w p (if (w, p) \<in> D then Suc k else k) \<and>
        rolling_inventory (res s) (w, p) =
          map (ledger f w p) [0..<(if (w, p) \<in> D then Suc k else k)])"

definition totals_inv :: "forecaster \<Rightarrow> nat \<Rightarrow> string list \<Rightarrow> simulation \<Rightarrow> bool" where
  "totals_inv f k ws s \<longleftrightarrow>
     (\<forall>w \<in> set warehouses.
        map warehouse_total_after (monthly_positions (res s) w) =
          map (total_after f w) [0..<(if w \<in> set ws then Suc k else k)]) \<and>
     alerts (res s) = concat (map (month_alerts f) [0..<k]) @ concat (map (alert_for f k) ws)"

definition forecasts_inv :: "forecaster \<Rightarrow> month_key \<Rightarrow> simulation \<Rightarrow> bool" where
  "forecasts_inv f d s \<longleftrightarrow>
     (\<forall>w \<in> set warehouses. \<forall>p \<in> set products. \<forall>ft.
        map_of (monthly_forecasts s (w, p, ft)) d = Some (predict_flow f d w p ft))"

text \<open>
  The forecast of a flow that the results store for month \<open>i\<close>, and the state of the stored
  forecasts after \<open>k\<close> months.
\<close>

definition stored_forecast ::
  "forecaster \<Rightarrow> string \<Rightarrow> string \<Rightarrow> flow_type \<Rightarrow> nat \<Rightarrow> month_key \<times> flow_forecast" where
  "stored_forecast f w p ft i =
     (forecast_date i,
      \<lparr> forecast = py_round (fst (predict_flow f (forecast_date i) w p ft)),
        lower = py_round (fst (snd (predict_flow f (forecast_date i) w p ft))),
        upper = py_round (snd (snd (predict_flow f (forecast_date i) w p ft))) \<rparr>)"

definition stored_inv :: "forecaster \<Rightarrow> nat \<Rightarrow> simulation \<Rightarrow> bool" where
  "stored_inv f k s \<longleftrightarrow>
     (\<forall>w \<in> set warehouses. \<forall>p \<in> set products. \<forall>ft.
        forecasts (res s) (w, p, ft) = map (stored_forecast f w p ft) [0..<k])"

text \<open>
  A forecaster whose history gives Atlanta footwear a mean inflow of 3 and a mean outflow of
  1 a month, starting from an empty network.
\<close>

definition surplus_forecaster :: forecaster where
  "surplus_forecaster =
     \<lparr> prophet_models = (\<lambda>k. None),
       training_data = (\<lambda>k.
          if k = (''Atlanta'', ''Footwear'', inflows) then [2, 4]
          else if k = (''Atlanta'', ''Footwear'', outflows) then [1, 1]
          else []),
       starting_inventory = (\<lambda>k. 0),
       warehouse_capacities = (\<lambda>w. Some (Some 100)) \<rparr>"

section \<open>Scenario analyses and shared dictionaries\<close>

text \<open>
  The scenario functions copy the dictionary of a warehouse and assign into the copy. What
  reaches the baseline depends on which dictionaries the copy shares with it, so the nested
  dictionaries live in a heap: one list of objects for each of the five kinds of nested
  dictionary, a reference being the index of an object in the list of its kind. The
  dictionary of a warehouse holds five references. A reference held by a dictionary always
  points to an allocated object; \<open>fetch\<close> is \<open>None\<close> for any other.
\<close>

type_synonym ref = nat

record heap =
  warehouse_info_objects :: "warehouse_info list"
  utilization_metrics_objects :: "utilization_metrics list"
  trend_analysis_objects :: "trend_analysis list"
  risk_assessment_objects :: "risk_assessment list"
  timeline_data_objects :: "timeline_data list"

record analysis_dict =
  warehouse_info_ref :: ref
  utilization_metrics_ref :: ref
  trend_analysis_ref :: ref
  risk_assessment_ref :: ref
  timeline_data_ref :: ref

type_synonym analysis_refs = "(string \<times> analysis_dict) list"

definition empty_heap :: heap where
  "empty_heap =
     \<lparr> warehouse_info_objects = [], utilization_metrics_objects = [],
       trend_analysis_objects = [], risk_assessment_objects = [],
       timeline_data_objects = [] \<rparr>"

definition fetch :: "'a list \<Rightarrow> ref \<Rightarrow> 'a option" where
  "fetch objects a = (if a < length objects then Some (objects ! a) else None)"

text \<open>
  The value of the dictionary of a warehouse: its five nested dictionaries read through the
  references; and the value of a whole capacity analysis.
\<close>

definition load_analysis :: "heap \<Rightarrow> analysis_dict \<Rightarrow> analysis option" where
  "load_analysis h d =
     (case fetch (warehouse_info_objects h) (warehouse_info_ref d) of
        None \<Rightarrow> None
      | Some info \<Rightarrow>
     (case fetch (utilization_metrics_objects h) (utilization_metrics_ref d) of
        None \<Rightarrow> None
      | Some metrics \<Rightarrow>
     (case fetch (trend_analysis_objects h) (trend_analysis_ref d) of
        None \<Rightarrow> None
      | Some trend \<Rightarrow>
     (case fetch (risk_assessment_objects h) (risk_assessment_ref d) of
        None \<Rightarrow> None
      | Some risk \<Rightarrow>
     (case fetch (timeline_data_objects h) (timeline_data_ref d) of
        None \<Rightarrow> None
      | Some timeline \<Rightarrow>
          Some \<lparr> warehouse_info = info, utilization_metrics = metrics,
                 trend_analysis = trend, risk_assessment = risk,
                 timeline_data = timeline \<rparr>)))))"

definition load_capacity_analysis :: "heap \<Rightarrow> analysis_refs \<Rightarrow> (string \<times> analysis option) list" where
  "load_capacity_analysis h ca = map (\<lambda>kv. (fst kv, load_analysis h (snd kv))) ca"

text \<open>
  Building the dictionary of a warehouse from its value allocates five new objects.
\<close>

definition store_analysis :: "analysis \<Rightarrow> heap \<Rightarrow> heap \<times> analysis_dict" where
  "store_analysis a h =
     (h\<lparr> warehouse_info_objects := warehouse_info_objects h @ [warehouse_info a],
         utilization_metrics_objects := utilization_metrics_objects h @ [utilization_metrics a],
         trend_analysis_objects := trend_analysis_objects h @ [trend_analysis a],
         risk_assessment_objects := risk_assessment_objects h @ [risk_assessment a],
         timeline_data_objects := timeline_data_objects h @ [timeline_data a] \<rparr>,
      \<lparr> warehouse_info_ref = length (warehouse_info_objects h),
        utilization_metrics_ref = length (utilization_metrics_objects h),
        trend_analysis_ref = length (trend_analysis_objects h),
        risk_assessment_ref = length (risk_assessment_objects h),
        timeline_data_ref = length (timeline_data_objects h) \<rparr>)"

fun store_capacity_analysis :: "capacity_analysis \<Rightarrow> heap \<Rightarrow> heap \<times> analysis_refs" where
  "store_capacity_analysis [] h = (h, [])"
| "store_capacity_analysis ((w, a) # rest) h =
     (case store_analysis a h of (h1, d) \<Rightarrow>
        (case store_capacity_analysis rest h1 of (h2, ds) \<Rightarrow> (h2, (w, d) # ds)))"

text \<open>
  \<^verbatim>\<open>data.copy()\<close> is a new dictionary with the same five references;
  \<^verbatim>\<open>copy.deepcopy(data)\<close> is a new dictionary whose references point to new copies of the
  nested dictionaries.
\<close>

definition shallow_copy :: "analysis_dict \<Rightarrow> analysis_dict" where
  "shallow_copy data = data"

definition deep_copy_dict :: "analysis_dict \<Rightarrow> heap \<Rightarrow> py_error + heap \<times> analysis_dict" where
  "deep_copy_dict original h =
     (case load_analysis h original of
        None \<Rightarrow> Inl KeyError
      | Some a \<Rightarrow> Inr (store_analysis a h))"

text \<open>
  Assignments into nested dictionaries, through a reference.
\<close>

definition update_warehouse_info ::
  "ref \<Rightarrow> (warehouse_info \<Rightarrow> warehouse_info) \<Rightarrow> heap \<Rightarrow> heap" where
  "update_warehouse_info a g h =
     h\<lparr> warehouse_info_objects :=
          (warehouse_info_objects h)[a := g (warehouse_info_objects h ! a)] \<rparr>"

definition update_utilization_metrics ::
  "ref \<Rightarrow> (utilization_metrics \<Rightarrow> utilization_metrics) \<Rightarrow> heap \<Rightarrow> heap" where
  "update_utilization_metrics a g h =
     h\<lparr> utilization_metrics_objects :=
          (utilization_metrics_objects h)[a := g (utilization_metrics_objects h ! a)] \<rparr>"

definition update_trend_analysis ::
  "ref \<Rightarrow> (trend_analysis \<Rightarrow> trend_analysis) \<Rightarrow> heap \<Rightarrow> heap" where
  "update_trend_analysis a g h =
     h\<lparr> trend_analysis_objects :=
          (trend_analysis_objects h)[a := g (trend_analysis_objects h ! a)] \<rparr>"

text \<open>
  \<^verbatim>\<open>scenario_data['risk_assessment'] = ...\<close> binds the key of the copy to a new dictionary.
\<close>

definition bind_risk_assessment ::
  "risk_assessment \<Rightarrow> heap \<times> analysis_dict \<Rightarrow> heap \<times> analysis_dict" where
  "bind_risk_assessment risk state =
     (case state of (h, scenario_data) \<Rightarrow>
        (h\<lparr> risk_assessment_objects := risk_assessment_objects h @ [risk] \<rparr>,
         scenario_data\<lparr> risk_assessment_ref := length (risk_assessment_objects h) \<rparr>))"

text \<open>
  The recalculation of the available capacity that both scenario functions end with, on
  the dictionary \<^verbatim>\<open>scenario_data['warehouse_info']\<close>.
\<close>

definition recalculate_available_capacity :: "analysis_dict \<Rightarrow> heap \<Rightarrow> py_error + heap" where
  "recalculate_available_capacity scenario_data h =
     (case fetch (warehouse_info_objects h) (warehouse_info_ref scenario_data) of
        None \<Rightarrow> Inl KeyError
      | Some info \<Rightarrow>
          (let available = max_capacity info - current_inventory info;
               h1 = update_warehouse_info (warehouse_info_ref scenario_data)
                      (\<lambda>i. i\<lparr> available_capacity := available \<rparr>) h
           in if max_capacity info = 0 then Inl ZeroDivisionError
              else Inr (update_warehouse_info (warehouse_info_ref scenario_data)
                     (\<lambda>i. i\<lparr> available_capacity_pct := available / max_capacity info * 100 \<rparr>)
                     h1)))"

subsection \<open>The high-demand scenario of the optimizer\<close>

text \<open>
  \<^verbatim>\<open>simulate_high_demand_scenario\<close>: the load of one warehouse is set to the given share of
  its capacity.
\<close>

definition set_load :: "analysis_dict \<Rightarrow> analysis_dict \<Rightarrow> real \<Rightarrow> real \<Rightarrow> heap \<Rightarrow> py_error + heap" where
  "set_load data scenario_data share utilization h =
     (case fetch (warehouse_info_objects h) (warehouse_info_ref data) of
        None \<Rightarrow> Inl KeyError
      | Some info \<Rightarrow>
          (let new_inventory = max_capacity info * share;
               h1 = update_warehouse_info (warehouse_info_ref scenario_data)
                      (\<lambda>i. i\<lparr> current_inventory := of_int (py_round new_inventory) \<rparr>) h
           in Inr (update_utilization_metrics (utilization_metrics_ref scenario_data)
                     (\<lambda>m. m\<lparr> final_utilization := utilization \<rparr>) h1)))"

definition set_increasing :: "analysis_dict \<Rightarrow> risk_assessment \<Rightarrow> heap \<Rightarrow> heap \<times> analysis_dict" where
  "set_increasing scenario_data risk h =
     bind_risk_assessment risk
       (update_trend_analysis (trend_analysis_ref scenario_data)
          (\<lambda>t. t\<lparr> trend_direction := ''Increasing'' \<rparr>) h,
        scenario_data)"

definition simulate_warehouse ::
  "string \<times> analysis_dict \<Rightarrow> heap \<times> analysis_refs \<Rightarrow> py_error + heap \<times> analysis_refs" where
  "simulate_warehouse item state =
     (case item of (wh, data) \<Rightarrow>
      case state of (h, scenario_analysis) \<Rightarrow>
        (let scenario_data = shallow_copy data
         in (case
               (if wh = ''Atlanta'' then
                  (case set_load data scenario_data 0.85 85.0 h of
                     Inl e \<Rightarrow> Inl e
                   | Inr h1 \<Rightarrow>
                       Inr (set_increasing scenario_data (assess_capacity_risk 85.0 87.0 1.2) h1))
                else if wh = ''Nashville'' then
                  (case set_load data scenario_data 0.90 90.0 h of
                     Inl e \<Rightarrow> Inl e
                   | Inr h1 \<Rightarrow>
                       Inr (set_increasing scenario_data (assess_capacity_risk 90.0 92.0 1.5) h1))
                else if wh = ''Chicago'' then
                  (case set_load data scenario_data 0.30 30.0 h of
                     Inl e \<Rightarrow> Inl e
                   | Inr h1 \<Rightarrow> Inr (h1, scenario_data))
                else if wh = ''LA'' then
                  (case set_load data scenario_data 0.25 25.0 h of
                     Inl e \<Rightarrow> Inl e
                   | Inr h1 \<Rightarrow> Inr (h1, scenario_data))
                else Inr (h, scenario_data)) of
               Inl e \<Rightarrow> Inl e
             | Inr (h2, scenario_data2) \<Rightarrow>
                 (case recalculate_available_capacity scenario_data2 h2 of
                    Inl e \<Rightarrow> Inl e
                  | Inr h3 \<Rightarrow>
                      Inr (h3, dict_set wh scenario_data2 scenario_analysis)))))"

definition simulate_high_demand_scenario ::
  "analysis_refs \<Rightarrow> heap \<Rightarrow> py_error + heap \<times> analysis_refs" where
  "simulate_high_demand_scenario capacity_analysis h =
     for_each simulate_warehouse capacity_analysis (h, [])"

subsection \<open>The custom scenario of the simulator\<close>

text \<open>
  The scenario configuration that \<^verbatim>\<open>apply_scenario_changes\<close> reads: the changes of a
  warehouse are a dictionary with the optional keys \<^verbatim>\<open>target_utilization\<close> and
  \<^verbatim>\<open>trend_direction\<close>; \<open>other_keys\<close> says whether it holds any further key, which makes it
  non-empty. The network changes hold at most a donation event.
\<close>

record warehouse_change =
  target_utilization :: "real option"
  new_trend_direction :: "string option"
  other_keys :: bool

record donation_event =
  donation_warehouse :: string
  donation_quantity :: real

record scenario_config =
  warehouse_changes :: "string \<rightharpoonup> warehouse_change"
  large_donation_event :: "donation_event option"

definition no_changes :: warehouse_change where
  "no_changes = \<lparr> target_utilization = None, new_trend_direction = None, other_keys = False \<rparr>"

definition nonempty :: "warehouse_change \<Rightarrow> bool" where
  "nonempty c \<longleftrightarrow> target_utilization c \<noteq> None \<or> new_trend_direction c \<noteq> None \<or> other_keys c"

text \<open>
  The changes of one warehouse, applied to its copy \<open>scenario_data\<close>: the inventory level,
  the trend direction, the risk assessment from the new utilization, and the available
  capacity.
\<close>

definition apply_target_utilization ::
  "warehouse_change \<Rightarrow> analysis_dict \<Rightarrow> heap \<Rightarrow> py_error + heap" where
  "apply_target_utilization c scenario_data h =
     (case target_utilization c of
        None \<Rightarrow> Inr h
      | Some target \<Rightarrow>
          (case fetch (warehouse_info_objects h) (warehouse_info_ref scenario_data) of
             None \<Rightarrow> Inl KeyError
           | Some info \<Rightarrow>
               (let new_inventory = max_capacity info * (target / 100);
                    h1 = update_warehouse_info (warehouse_info_ref scenario_data)
                           (\<lambda>i. i\<lparr> current_inventory := of_int (py_round new_inventory) \<rparr>) h
                in Inr (update_utilization_metrics (utilization_metrics_ref scenario_data)
                          (\<lambda>m. m\<lparr> final_utilization := target \<rparr>) h1))))"

definition apply_trend_direction :: "warehouse_change \<Rightarrow> analysis_dict \<Rightarrow> heap \<Rightarrow> heap" where
  "apply_trend_direction c scenario_data h =
     (case new_trend_direction c of
        None \<Rightarrow> h
      | Some direction \<Rightarrow>
          update_trend_analysis (trend_analysis_ref scenario_data)
            (\<lambda>t. t\<lparr> trend_direction := direction \<rparr>) h)"

definition apply_warehouse_changes ::
  "warehouse_change \<Rightarrow> analysis_dict \<Rightarrow> heap \<Rightarrow> py_error + heap \<times> analysis_dict" where
  "apply_warehouse_changes c scenario_data h =
     (case apply_target_utilization c scenario_data h of
        Inl e \<Rightarrow> Inl e
      | Inr h1 \<Rightarrow>
          (let h2 = apply_trend_direction c scenario_data h1
           in (case fetch (utilization_metrics_objects h2) (utilization_metrics_ref scenario_data) of
                 None \<Rightarrow> Inl KeyError
               | Some metrics \<Rightarrow>
                   (let new_util = final_utilization metrics;
                        bound = bind_risk_assessment
                          (assess_capacity_risk new_util (new_util + 2)
                             (if new_trend_direction c = Some ''Increasing'' then 1.0 else 0))
                          (h2, scenario_data)
                    in (case recalculate_available_capacity (snd bound) (fst bound) of
                          Inl e \<Rightarrow> Inl e
                        | Inr h3 \<Rightarrow> Inr (h3, snd bound))))))"

definition change_warehouse ::
  "scenario_config \<Rightarrow> string \<times> analysis_dict \<Rightarrow> heap \<times> analysis_refs
     \<Rightarrow> py_error + heap \<times> analysis_refs" where
  "change_warehouse cfg item state =
     (case item of (wh, data) \<Rightarrow>
      case state of (h, scenario_analysis) \<Rightarrow>
        (case deep_copy_dict data h of
           Inl e \<Rightarrow> Inl e
         | Inr (h1, scenario_data) \<Rightarrow>
             (let c = (case warehouse_changes cfg wh of None \<Rightarrow> no_changes | Some c \<Rightarrow> c)
              in if nonempty c
                 then (case apply_warehouse_changes c scenario_data h1 of
                         Inl e \<Rightarrow> Inl e
                       | Inr (h2, scenario_data2) \<Rightarrow>
                           Inr (h2, dict_set wh scenario_data2 scenario_analysis))
                 else Inr (h1, dict_set wh scenario_data scenario_analysis))))"

text \<open>
  The donation event adds its quantity to the inventory of its warehouse in the scenario
  and sets the final utilization of that warehouse from the new inventory.
\<close>

definition apply_donation ::
  "donation_event \<Rightarrow> heap \<times> analysis_refs \<Rightarrow> py_error + heap \<times> analysis_refs" where
  "apply_donation event state =
     (case state of (h, scenario_analysis) \<Rightarrow>
        (case map_of scenario_analysis (donation_warehouse event) of
           None \<Rightarrow> Inr (h, scenario_analysis)
         | Some target \<Rightarrow>
             (case fetch (warehouse_info_objects h) (warehouse_info_ref target) of
                None \<Rightarrow> Inl KeyError
              | Some info \<Rightarrow>
                  (let new_inventory = current_inventory info + donation_quantity event;
                       h1 = update_warehouse_info (warehouse_info_ref target)
                              (\<lambda>i. i\<lparr> current_inventory := new_inventory \<rparr>) h
                   in if max_capacity info = 0 then Inl ZeroDivisionError
                      else Inr (update_utilization_metrics (utilization_metrics_ref target)
                                  (\<lambda>m. m\<lparr> final_utilization :=
                                           new_inventory / max_capacity info * 100 \<rparr>) h1,
                                scenario_analysis)))))"

definition apply_scenario_changes ::
  "scenario_config \<Rightarrow> analysis_refs \<Rightarrow> heap \<Rightarrow> py_error + heap \<times> analysis_refs" where
  "apply_scenario_changes cfg base_analysis h =
     (case for_each (change_warehouse cfg) base_analysis (h, []) of
        Inl e \<Rightarrow> Inl e
      | Inr state \<Rightarrow>
          (case large_donation_event cfg of
             None \<Rightarrow> Inr state
           | Some event \<Rightarrow> apply_donation event state))"

text \<open>
  One heap extends another when it holds the objects of the other unchanged and possibly
  more; a dictionary is new to a heap when none of its references points into it; it is
  allocated in a heap when all of them do.
\<close>

definition extends :: "heap \<Rightarrow> heap \<Rightarrow> bool" where
  "extends h h' \<longleftrightarrow>
     take (length (warehouse_info_objects h)) (warehouse_info_objects h')
       = warehouse_info_objects h \<and>
     take (length (utilization_metrics_objects h)) (utilization_metrics_objects h')
       = utilization_metrics_objects h \<and>
     take (length (trend_analysis_objects h)) (trend_analysis_objects h')
       = trend_analysis_objects h \<and>
     take (length (risk_assessment_objects h)) (risk_assessment_objects h')
       = risk_assessment_objects h \<and>
     take (length (timeline_data_objects h)) (timeline_data_objects h')
       = timeline_data_objects h"

definition new_to :: "heap \<Rightarrow> analysis_dict \<Rightarrow> bool" where
  "new_to h d \<longleftrightarrow>
     length (warehouse_info_objects h) \<le> warehouse_info_ref d \<and>
     length (utilization_metrics_objects h) \<le> utilization_metrics_ref d \<and>
     length (trend_analysis_objects h) \<le> trend_analysis_ref d \<and>
     length (risk_assessment_objects h) \<le> risk_assessment_ref d \<and>
     length (timeline_data_objects h) \<le> timeline_data_ref d"

definition allocated :: "heap \<Rightarrow> analysis_dict \<Rightarrow> bool" where
  "allocated h d \<longleftrightarrow>
     warehouse_info_ref d < length (warehouse_info_objects h) \<and>
     utilization_metrics_ref d < length (utilization_metrics_objects h) \<and>
     trend_analysis_ref d < length (trend_analysis_objects h) \<and>
     risk_assessment_ref d < length (risk_assessment_objects h) \<and>
     timeline_data_ref d < length (timeline_data_objects h)"
section \<open>Example inputs\<close>

text \<open>
  Concrete analysis records for the worked examples: a warehouse with the given capacity,
  inventory and final utilization, the remaining entries as the analyzer would leave them
  for a one-period timeline.
\<close>

definition example_analysis :: "string \<Rightarrow> real \<Rightarrow> real \<Rightarrow> real \<Rightarrow> analysis" where
  "example_analysis wh capacity inventory util =
     \<lparr> warehouse_info =
         \<lparr> name = wh, max_capacity = capacity, current_inventory = inventory,
           available_capacity = capacity - inventory,
           available_capacity_pct = py_round_n 1 ((capacity - inventory) / capacity * 100) \<rparr>,
       utilization_metrics =
         \<lparr> average_utilization = util, max_utilization = util, min_utilization = util,
           final_utilization = util, utilization_range = 0 \<rparr>,
       trend_analysis = \<lparr> trend_direction = ''Stable'', trend_slope = 0, volatility = 0 \<rparr>,
       risk_assessment = assess_capacity_risk util util 0,
       timeline_data =
         \<lparr> months = [(2023, 1)], utilization_pct = [util],
           inventory_levels = [py_round inventory] \<rparr> \<rparr>"

definition example_rules :: "real \<Rightarrow> business_rules" where
  "example_rules min_size =
     \<lparr> optimal_range = (0.6, 0.8), max_transfer_percentage = 0.5,
       minimum_transfer_size = min_size \<rparr>"

text \<open>
  The two-warehouse network of the specification's end-to-end scenario (90\% against 20\%
  utilization at capacity 100,000), and two small networks whose numbers do not round
  away.
\<close>

definition example_network :: capacity_analysis where
  "example_network =
     [(''Atlanta'', example_analysis ''Atlanta'' 100000 90000 90),
      (''Chicago'', example_analysis ''Chicago'' 100000 20000 20)]"

definition fractional_network :: capacity_analysis where
  "fractional_network =
     [(''Atlanta'', example_analysis ''Atlanta'' 1005 904 90),
      (''Chicago'', example_analysis ''Chicago'' 1000 200 20)]"

definition rounded_inventory_network :: capacity_analysis where
  "rounded_inventory_network =
     [(''Atlanta'', example_analysis ''Atlanta'' 1000 900 90),
      (''Chicago'', example_analysis ''Chicago'' 100 30 29.6)]"

definition first_transfer :: "py_error + transfer list \<Rightarrow> transfer" where
  "first_transfer r = hd (projr r)"


text \<open>
  The example network as a baseline analysis on the heap, and the heap a run of the
  high-demand scenario leaves behind.
\<close>

definition baseline_heap :: heap where
  "baseline_heap = fst (store_capacity_analysis example_network empty_heap)"

definition baseline_analysis :: analysis_refs where
  "baseline_analysis = snd (store_capacity_analysis example_network empty_heap)"

definition heap_after :: "py_error + heap \<times> analysis_refs \<Rightarrow> heap" where
  "heap_after run = fst (projr run)"

definition analysis_in :: "heap \<Rightarrow> analysis_refs \<Rightarrow> string \<Rightarrow> analysis" where
  "analysis_in h ca w = the (the (map_of (load_capacity_analysis h ca) w))"

text \<open>
  The crisis scenario of the simulator's \<^verbatim>\<open>main\<close>, cut down to the two warehouses of the
  example network, with a donation to Chicago.
\<close>

definition crisis_config :: scenario_config where
  "crisis_config =
     \<lparr> warehouse_changes =
         [''Atlanta'' \<mapsto> \<lparr> target_utilization = Some 85,
                            new_trend_direction = Some ''Increasing'', other_keys = False \<rparr>,
          ''Chicago'' \<mapsto> \<lparr> target_utilization = Some 30,
                            new_trend_direction = Some ''Stable'', other_keys = False \<rparr>],
       large_donation_event = Some \<lparr> donation_warehouse = ''Chicago'', donation_quantity = 50000 \<rparr> \<rparr>"
section \<open>Properties of the risk assessment\<close>

lemma rule_scores:
  "fst (utilization_rule a (s, fs)) = s + (if a > 80 then 3 else if a > 60 then 1 else 0)"
  "fst (peak_rule m (s, fs)) = s + (if m > 95 then 3 else if m > 85 then 2 else 0)"
  "fst (trend_rule t (s, fs)) = s + (if t > 1 then 2 else if 2 * t > 1 then 1 else 0)"
  by (simp_all add: utilization_rule_def peak_rule_def trend_rule_def)

lemma assess_score:
  "score (assess_capacity_risk a m t) =
     fst (trend_rule t (peak_rule m (utilization_rule a (0, []))))"
  by (simp add: assess_capacity_risk_def split: prod.split)

lemma assess_level:
  "level (assess_capacity_risk a m t) = level_of_score (score (assess_capacity_risk a m t))"
  by (simp add: assess_capacity_risk_def split: prod.split)

text \<open>
  C4. For every mean utilization, peak utilization and trend slope, the risk score is the
  sum of three independent contributions (3 above a mean of 80, else 1 above 60; 3 above a
  peak of 95, else 2 above 85; 2 above a slope of 1.0, else 1 above 0.5), and the level is
  HIGH exactly from score 5, MEDIUM exactly for scores 3 and 4, LOW exactly for scores 1
  and 2, MINIMAL exactly for score 0. Score and level are functions of the three inputs
  alone.
\<close>

theorem risk_score_additive:
  "score (assess_capacity_risk avg_util max_util slope) =
       (if avg_util > 80 then 3 else if avg_util > 60 then 1 else 0)
     + (if max_util > 95 then 3 else if max_util > 85 then 2 else 0)
     + (if slope > 1.0 then 2 else if slope > 0.5 then 1 else 0)
   \<and> (level (assess_capacity_risk avg_util max_util slope) = HIGH)
       = (score (assess_capacity_risk avg_util max_util slope) \<ge> 5)
   \<and> (level (assess_capacity_risk avg_util max_util slope) = MEDIUM)
       = (score (assess_capacity_risk avg_util max_util slope) \<in> {3, 4})
   \<and> (level (assess_capacity_risk avg_util max_util slope) = LOW)
       = (score (assess_capacity_risk avg_util max_util slope) \<in> {1, 2})
   \<and> (level (assess_capacity_risk avg_util max_util slope) = MINIMAL)
       = (score (assess_capacity_risk avg_util max_util slope) = 0)"
proof -
  let ?r = "assess_capacity_risk avg_util max_util slope"
  obtain s1 f1 where u: "utilization_rule avg_util (0, []) = (s1, f1)"
    by (cases "utilization_rule avg_util (0, [])")
  obtain s2 f2 where p: "peak_rule max_util (s1, f1) = (s2, f2)"
    by (cases "peak_rule max_util (s1, f1)")
  have s1: "s1 = (if avg_util > 80 then 3 else if avg_util > 60 then 1 else 0)"
    using rule_scores(1) [of avg_util 0 "[]"] u by simp
  have s2: "s2 = s1 + (if max_util > 95 then 3 else if max_util > 85 then 2 else 0)"
    using rule_scores(2) [of max_util s1 f1] p by simp
  have sc: "score ?r = s2 + (if slope > 1 then 2 else if 2 * slope > 1 then 1 else 0)"
    using rule_scores(3) [of slope s2 f2] by (simp add: assess_score u p)
  have first: "score ?r =
       (if avg_util > 80 then 3 else if avg_util > 60 then 1 else 0)
     + (if max_util > 95 then 3 else if max_util > 85 then 2 else 0)
     + (if slope > 1.0 then 2 else if slope > 0.5 then 1 else 0)"
    unfolding sc s2 s1 by simp
  have nonneg: "0 \<le> score ?r"
    unfolding first by simp
  have lv: "level ?r = level_of_score (score ?r)"
    by (rule assess_level)
  have "(level ?r = HIGH) = (score ?r \<ge> 5)"
    unfolding lv by (simp add: level_of_score_def)
  moreover have "(level ?r = MEDIUM) = (score ?r \<in> {3, 4})"
    unfolding lv by (auto simp: level_of_score_def)
  moreover have "(level ?r = LOW) = (score ?r \<in> {1, 2})"
    unfolding lv by (auto simp: level_of_score_def)
  moreover have "(level ?r = MINIMAL) = (score ?r = 0)"
    unfolding lv using nonneg by (auto simp: level_of_score_def)
  ultimately show ?thesis
    using first by blast
qed

section \<open>Properties of rounding\<close>

lemma py_round_of_int: "py_round (of_int n) = n"
  by (simp add: py_round_def)

lemma py_round_mono: "x \<le> y \<Longrightarrow> py_round x \<le> py_round y"
proof -
  assume xy: "x \<le> y"
  have fl: "\<lfloor>x\<rfloor> \<le> \<lfloor>y\<rfloor>" using xy by (rule floor_mono)
  show ?thesis
  proof (cases "\<lfloor>x\<rfloor> = \<lfloor>y\<rfloor>")
    case True
    then show ?thesis using xy unfolding py_round_def Let_def by auto
  next
    case False
    then have "\<lfloor>x\<rfloor> + 1 \<le> \<lfloor>y\<rfloor>" using fl by linarith
    moreover have "py_round x \<le> \<lfloor>x\<rfloor> + 1" unfolding py_round_def Let_def by auto
    moreover have "\<lfloor>y\<rfloor> \<le> py_round y" unfolding py_round_def Let_def by auto
    ultimately show ?thesis by linarith
  qed
qed

lemma py_round_pos: "0 < py_round x \<Longrightarrow> 0 < x"
  using py_round_mono [of x 0] py_round_of_int [of 0] by (cases "x \<le> 0") auto


lemma py_round_ge_int: "of_int n \<le> x \<Longrightarrow> n \<le> py_round x"
  using py_round_mono [of "of_int n" x] by (simp add: py_round_of_int)

lemma py_round_le_int: "x \<le> of_int n \<Longrightarrow> py_round x \<le> n"
  using py_round_mono [of x "of_int n"] by (simp add: py_round_of_int)

lemma py_round_n_mono: "x \<le> y \<Longrightarrow> py_round_n n x \<le> py_round_n n y"
  unfolding py_round_n_def by (simp add: py_round_mono divide_right_mono)

section \<open>Properties of the Transfer Optimizer\<close>

lemma recommended_amount_pos:
  assumes "0 < recommended_amount rules sd dd"
  shows "minimum_transfer_size rules \<le> recommended_amount rules sd dd"
    and "recommended_amount rules sd dd \<le> max_transferable rules sd dd"
    and "recommended_amount rules sd dd \<le> source_excess rules sd * 0.7"
  using assms unfolding recommended_amount_def Let_def
  by (auto split: if_splits)

lemma max_transferable_le:
  "max_transferable rules sd dd
     \<le> max_capacity (warehouse_info dd) - current_inventory (warehouse_info dd)"
  "max_transferable rules sd dd \<le> source_excess rules sd"
  "max_transferable rules sd dd \<le> dest_deficit rules dd"
  "max_transferable rules sd dd
     \<le> current_inventory (warehouse_info sd) * max_transfer_percentage rules"
  unfolding max_transferable_def by simp_all

lemma calculate_optimal_transfer_fields:
  assumes "calculate_optimal_transfer rules sw sd dw dd = Inr t"
  shows "source_warehouse t = sw"
    and "destination_warehouse t = dw"
    and "recommended_transfer t = py_round (recommended_amount rules sd dd)"
    and "estimated_transfer_cost (cost_analysis t)
           = py_round_n 2 (recommended_amount rules sd dd * 0.10 * get_distance_factor sw dw)"
    and "source_utilization (projected_state t)
           = py_round_n 1 ((current_inventory (warehouse_info sd) - recommended_amount rules sd dd)
                             / max_capacity (warehouse_info sd) * 100)"
    and "dest_utilization (projected_state t)
           = py_round_n 1 ((current_inventory (warehouse_info dd) + recommended_amount rules sd dd)
                             / max_capacity (warehouse_info dd) * 100)"
    and "max_capacity (warehouse_info sd) \<noteq> 0"
    and "max_capacity (warehouse_info dd) \<noteq> 0"
  using assms unfolding calculate_optimal_transfer_def Let_def
  by (auto split: if_splits)

lemma dest_loop_emitted:
  assumes "dest_loop rules ca sw sd dws opps = Inr out" and "t \<in> set out"
  shows "t \<in> set opps \<or>
         (\<exists>dw dd. map_of ca dw = Some dd \<and> sw \<noteq> dw
                 \<and> calculate_optimal_transfer rules sw sd dw dd = Inr t
                 \<and> 0 < recommended_transfer t)"
  using assms
proof (induction dws arbitrary: opps)
  case Nil
  then show ?case by simp
next
  case (Cons dw rest)
  from Cons.prems(1) obtain dd where dd: "map_of ca dw = Some dd"
    by (cases "map_of ca dw") auto
  show ?case
  proof (cases "sw = dw")
    case True
    with Cons.prems dd have "dest_loop rules ca sw sd rest opps = Inr out" by simp
    from Cons.IH [OF this Cons.prems(2)] show ?thesis .
  next
    case False
    with Cons.prems(1) dd obtain ta where
      ta: "calculate_optimal_transfer rules sw sd dw dd = Inr ta"
      by (cases "calculate_optimal_transfer rules sw sd dw dd") auto
    let ?opps = "if recommended_transfer ta > 0 then opps @ [ta] else opps"
    from Cons.prems(1) dd False ta have "dest_loop rules ca sw sd rest ?opps = Inr out"
      by simp
    from Cons.IH [OF this Cons.prems(2)] show ?thesis
    proof
      assume "t \<in> set ?opps"
      then show ?thesis using dd False ta by (auto split: if_splits)
    qed blast
  qed
qed

lemma source_loop_emitted:
  assumes "source_loop rules ca sws low opps = Inr out" and "t \<in> set out"
  shows "t \<in> set opps \<or>
         (\<exists>sw sd dw dd. map_of ca sw = Some sd \<and> map_of ca dw = Some dd \<and> sw \<noteq> dw
                 \<and> calculate_optimal_transfer rules sw sd dw dd = Inr t
                 \<and> 0 < recommended_transfer t)"
  using assms
proof (induction sws arbitrary: opps)
  case Nil
  then show ?case by simp
next
  case (Cons sw rest)
  from Cons.prems(1) obtain sd where sd: "map_of ca sw = Some sd"
    by (cases "map_of ca sw") auto
  with Cons.prems(1) obtain mid where
    mid: "dest_loop rules ca sw sd low opps = Inr mid"
    and rest: "source_loop rules ca rest low mid = Inr out"
    by (cases "dest_loop rules ca sw sd low opps") auto
  from Cons.IH [OF rest Cons.prems(2)] show ?case
  proof
    assume "t \<in> set mid"
    from dest_loop_emitted [OF mid this] show ?thesis using sd by blast
  qed blast
qed

lemma identify_emitted:
  assumes "identify_transfer_opportunities rules ca = Inr ts" and "t \<in> set ts"
  obtains sd dd where "map_of ca (source_warehouse t) = Some sd"
    and "map_of ca (destination_warehouse t) = Some dd"
    and "source_warehouse t \<noteq> destination_warehouse t"
    and "calculate_optimal_transfer rules (source_warehouse t) sd (destination_warehouse t) dd
           = Inr t"
    and "0 < recommended_amount rules sd dd"
proof -
  from assms(1) obtain opps where
    opps: "source_loop rules ca (high_util_warehouses ca) (low_util_warehouses ca) [] = Inr opps"
    and ts: "ts = sort_key (\<lambda>t. - utilization_improvement (impact_metrics t)) opps"
    unfolding identify_transfer_opportunities_def
    by (cases "source_loop rules ca (high_util_warehouses ca) (low_util_warehouses ca) []") auto
  from assms(2) ts have "t \<in> set opps" by simp
  from source_loop_emitted [OF opps this] obtain sw sd dw dd where
    a: "map_of ca sw = Some sd" "map_of ca dw = Some dd" "sw \<noteq> dw"
       "calculate_optimal_transfer rules sw sd dw dd = Inr t" "0 < recommended_transfer t"
    by auto
  note f = calculate_optimal_transfer_fields [OF a(4)]
  have "0 < recommended_amount rules sd dd"
    using a(5) f(3) py_round_pos by simp
  then show ?thesis using that [of sd dd] a f(1,2) by simp
qed

lemmas optimizer_eval =
  identify_transfer_opportunities_def high_util_warehouses_def low_util_warehouses_def
  warehouses_by_util_def final_util_of_def example_analysis_def example_rules_def
  calculate_optimal_transfer_def recommended_amount_def max_transferable_def
  source_excess_def dest_deficit_def target_util_def py_round_def py_round_n_def
  get_distance_factor_def distance_factors_def calculate_risk_reduction_def
  assess_capacity_risk_def utilization_rule_def peak_rule_def trend_rule_def
  level_of_score_def first_transfer_def Let_def

text \<open>
  C5, as the code has it. Every transfer the optimizer emits goes between two different
  warehouses of the analysis; its reported quantity is the recommended amount rounded to
  the nearest integer; the recommended amount itself is at least the configured minimum
  transfer size and at most the destination's available capacity (capacity minus
  inventory). The reported quantity keeps the lower bound when the minimum size is a whole
  number, and the upper bound when the available capacity is a whole number.
\<close>

theorem emitted_transfer_bounds:
  assumes "identify_transfer_opportunities rules ca = Inr ts" and "t \<in> set ts"
  shows "\<exists>sd dd.
           map_of ca (source_warehouse t) = Some sd
         \<and> map_of ca (destination_warehouse t) = Some dd
         \<and> source_warehouse t \<noteq> destination_warehouse t
         \<and> recommended_transfer t = py_round (recommended_amount rules sd dd)
         \<and> minimum_transfer_size rules \<le> recommended_amount rules sd dd
         \<and> recommended_amount rules sd dd
              \<le> max_capacity (warehouse_info dd) - current_inventory (warehouse_info dd)
         \<and> (minimum_transfer_size rules \<in> \<int> \<longrightarrow>
              minimum_transfer_size rules \<le> of_int (recommended_transfer t))
         \<and> (max_capacity (warehouse_info dd) - current_inventory (warehouse_info dd) \<in> \<int> \<longrightarrow>
              of_int (recommended_transfer t)
                \<le> max_capacity (warehouse_info dd) - current_inventory (warehouse_info dd))"
proof -
  from assms obtain sd dd where
    sd: "map_of ca (source_warehouse t) = Some sd"
    and dd: "map_of ca (destination_warehouse t) = Some dd"
    and ne: "source_warehouse t \<noteq> destination_warehouse t"
    and calc: "calculate_optimal_transfer rules (source_warehouse t) sd
                 (destination_warehouse t) dd = Inr t"
    and pos: "0 < recommended_amount rules sd dd"
    by (rule identify_emitted)
  let ?a = "recommended_amount rules sd dd"
  let ?avail = "max_capacity (warehouse_info dd) - current_inventory (warehouse_info dd)"
  have q: "recommended_transfer t = py_round ?a"
    by (rule calculate_optimal_transfer_fields(3) [OF calc])
  have lo: "minimum_transfer_size rules \<le> ?a"
    by (rule recommended_amount_pos(1) [OF pos])
  have hi: "?a \<le> ?avail"
    using recommended_amount_pos(2) [OF pos] max_transferable_le(1) [of rules sd dd]
    by linarith
  have lo_int: "minimum_transfer_size rules \<le> of_int (recommended_transfer t)"
    if "minimum_transfer_size rules \<in> \<int>"
  proof -
    from that obtain n where n: "minimum_transfer_size rules = of_int n"
      by (auto elim: Ints_cases)
    with lo have "n \<le> py_round ?a" by (simp add: py_round_ge_int)
    with n q show ?thesis by simp
  qed
  have hi_int: "of_int (recommended_transfer t) \<le> ?avail" if "?avail \<in> \<int>"
  proof -
    from that obtain n where n: "?avail = of_int n"
      by (auto elim: Ints_cases)
    with hi have "py_round ?a \<le> n" by (simp add: py_round_le_int)
    with n q show ?thesis by simp
  qed
  show ?thesis
    using sd dd ne q lo hi lo_int hi_int by blast
qed

theorem emitted_transfer_bounds_witness:
  "identify_transfer_opportunities (example_rules 5000) example_network
     = Inr [first_transfer (identify_transfer_opportunities (example_rules 5000) example_network)]
   \<and> minimum_transfer_size (example_rules 5000) \<in> \<int>
   \<and> source_warehouse (first_transfer
        (identify_transfer_opportunities (example_rules 5000) example_network)) = ''Atlanta''
   \<and> destination_warehouse (first_transfer
        (identify_transfer_opportunities (example_rules 5000) example_network)) = ''Chicago''
   \<and> recommended_transfer (first_transfer
        (identify_transfer_opportunities (example_rules 5000) example_network)) = 7000
   \<and> minimum_transfer_size (example_rules 5000)
        \<le> of_int (recommended_transfer (first_transfer
             (identify_transfer_opportunities (example_rules 5000) example_network)))"
proof -
  let ?r = "identify_transfer_opportunities (example_rules 5000) example_network"
  have run: "?r = Inr [first_transfer ?r]"
    by (simp add: example_network_def optimizer_eval)
  have mem: "first_transfer ?r \<in> set [first_transfer ?r]"
    by simp
  have whole: "minimum_transfer_size (example_rules 5000) \<in> \<int>"
    by (simp add: example_rules_def)
  have fields: "source_warehouse (first_transfer ?r) = ''Atlanta''"
    "destination_warehouse (first_transfer ?r) = ''Chicago''"
    "recommended_transfer (first_transfer ?r) = 7000"
    by (simp_all add: example_network_def optimizer_eval)
  from emitted_transfer_bounds [OF run mem] whole
  have "minimum_transfer_size (example_rules 5000)
          \<le> of_int (recommended_transfer (first_transfer ?r))"
    by blast
  with run whole fields show ?thesis by blast
qed

text \<open>
  C5 as stated fails where the minimum size is not a whole number: with a minimum of
  70.2 units the optimizer keeps a recommended amount of 70.35 and reports it as 70.
\<close>

theorem emitted_transfer_below_minimum:
  "identify_transfer_opportunities (example_rules 70.2) fractional_network
     = Inr [first_transfer (identify_transfer_opportunities (example_rules 70.2) fractional_network)]
   \<and> recommended_transfer (first_transfer
        (identify_transfer_opportunities (example_rules 70.2) fractional_network)) = 70
   \<and> minimum_transfer_size (example_rules 70.2) = 70.2
   \<and> \<not> minimum_transfer_size (example_rules 70.2)
        \<le> of_int (recommended_transfer (first_transfer
             (identify_transfer_opportunities (example_rules 70.2) fractional_network)))"
  by (simp add: fractional_network_def optimizer_eval)

text \<open>
  C6, as the code has it. The cost estimate of every emitted transfer is the recommended
  amount (the quantity before it is rounded) times the base cost of 0.10 per unit times
  the distance factor of the pair, rounded to two decimals: the Transfer Optimizer applies
  no volume discount at any quantity. The volume discount (0.90 above 5,000 units, 0.85
  above 10,000 units, 1 up to 5,000 units) belongs to the allocation engine's shipping
  cost, which is quantity times 2.50 times distance factor times discount, rounded to two
  decimals.
\<close>

theorem emitted_transfer_cost:
  assumes "identify_transfer_opportunities rules ca = Inr ts" and "t \<in> set ts"
  shows "(\<exists>sd dd.
            map_of ca (source_warehouse t) = Some sd
          \<and> map_of ca (destination_warehouse t) = Some dd
          \<and> recommended_transfer t = py_round (recommended_amount rules sd dd)
          \<and> estimated_transfer_cost (cost_analysis t)
               = py_round_n 2 (recommended_amount rules sd dd * 0.10
                   * get_distance_factor (source_warehouse t) (destination_warehouse t))
          \<and> (recommended_amount rules sd dd \<in> \<int> \<longrightarrow>
               estimated_transfer_cost (cost_analysis t)
                 = py_round_n 2 (of_int (recommended_transfer t) * 0.10
                     * get_distance_factor (source_warehouse t) (destination_warehouse t))))
       \<and> estimate_shipping_cost quantity factor
            = py_round_n 2 (quantity * 2.50 * factor * volume_discount quantity)
       \<and> volume_discount quantity
            = (if quantity > 10000 then 0.85 else if quantity > 5000 then 0.90 else 1)"
proof -
  from assms obtain sd dd where
    sd: "map_of ca (source_warehouse t) = Some sd"
    and dd: "map_of ca (destination_warehouse t) = Some dd"
    and calc: "calculate_optimal_transfer rules (source_warehouse t) sd
                 (destination_warehouse t) dd = Inr t"
    by (rule identify_emitted)
  let ?a = "recommended_amount rules sd dd"
  let ?df = "get_distance_factor (source_warehouse t) (destination_warehouse t)"
  have q: "recommended_transfer t = py_round ?a"
    by (rule calculate_optimal_transfer_fields(3) [OF calc])
  have c: "estimated_transfer_cost (cost_analysis t) = py_round_n 2 (?a * 0.10 * ?df)"
    by (rule calculate_optimal_transfer_fields(4) [OF calc])
  have whole: "estimated_transfer_cost (cost_analysis t)
                 = py_round_n 2 (of_int (recommended_transfer t) * 0.10 * ?df)"
    if "?a \<in> \<int>"
  proof -
    from that obtain n where n: "?a = of_int n" by (auto elim: Ints_cases)
    then have "of_int (recommended_transfer t) = ?a"
      using q by (simp add: py_round_of_int)
    with c show ?thesis by simp
  qed
  have ship: "estimate_shipping_cost quantity factor
                = py_round_n 2 (quantity * 2.50 * factor * volume_discount quantity)"
    by (simp add: estimate_shipping_cost_def)
  have disc: "volume_discount quantity
                = (if quantity > 10000 then 0.85 else if quantity > 5000 then 0.90 else 1)"
    by (simp add: volume_discount_def)
  from sd dd q c whole have "\<exists>sd dd.
            map_of ca (source_warehouse t) = Some sd
          \<and> map_of ca (destination_warehouse t) = Some dd
          \<and> recommended_transfer t = py_round (recommended_amount rules sd dd)
          \<and> estimated_transfer_cost (cost_analysis t)
               = py_round_n 2 (recommended_amount rules sd dd * 0.10 * ?df)
          \<and> (recommended_amount rules sd dd \<in> \<int> \<longrightarrow>
               estimated_transfer_cost (cost_analysis t)
                 = py_round_n 2 (of_int (recommended_transfer t) * 0.10 * ?df))"
    by blast
  with ship disc show ?thesis by blast
qed

theorem emitted_transfer_cost_witness:
  "identify_transfer_opportunities (example_rules 5000) example_network
     = Inr [first_transfer (identify_transfer_opportunities (example_rules 5000) example_network)]
   \<and> recommended_amount (example_rules 5000)
        (example_analysis ''Atlanta'' 100000 90000 90)
        (example_analysis ''Chicago'' 100000 20000 20) \<in> \<int>
   \<and> estimated_transfer_cost (cost_analysis (first_transfer
        (identify_transfer_opportunities (example_rules 5000) example_network)))
        = py_round_n 2 (of_int (recommended_transfer (first_transfer
             (identify_transfer_opportunities (example_rules 5000) example_network))) * 0.10
            * get_distance_factor ''Atlanta'' ''Chicago'')
   \<and> estimated_transfer_cost (cost_analysis (first_transfer
        (identify_transfer_opportunities (example_rules 5000) example_network))) = 1050"
proof -
  let ?r = "identify_transfer_opportunities (example_rules 5000) example_network"
  let ?sd = "example_analysis ''Atlanta'' 100000 90000 90"
  let ?dd = "example_analysis ''Chicago'' 100000 20000 20"
  have run: "?r = Inr [first_transfer ?r]"
    by (simp add: example_network_def optimizer_eval)
  have mem: "first_transfer ?r \<in> set [first_transfer ?r]"
    by simp
  have names: "source_warehouse (first_transfer ?r) = ''Atlanta''"
    "destination_warehouse (first_transfer ?r) = ''Chicago''"
    by (simp_all add: example_network_def optimizer_eval)
  have look: "map_of example_network ''Atlanta'' = Some ?sd"
    "map_of example_network ''Chicago'' = Some ?dd"
    by (simp_all add: example_network_def)
  have amount: "recommended_amount (example_rules 5000) ?sd ?dd = 7000"
    by (simp add: optimizer_eval)
  then have whole: "recommended_amount (example_rules 5000) ?sd ?dd \<in> \<int>"
    by simp
  from emitted_transfer_cost [OF run mem, of 0 0] names look whole
  have "estimated_transfer_cost (cost_analysis (first_transfer ?r))
          = py_round_n 2 (of_int (recommended_transfer (first_transfer ?r)) * 0.10
              * get_distance_factor ''Atlanta'' ''Chicago'')"
    by auto
  moreover have "estimated_transfer_cost (cost_analysis (first_transfer ?r)) = 1050"
    by (simp add: example_network_def optimizer_eval)
  ultimately show ?thesis using run whole by blast
qed

text \<open>
  C6 as stated fails above 5,000 units: a transfer of 7,000 units from Atlanta to Chicago
  (distance factor 1.5) is estimated at 1,050, the undiscounted product, where the claimed
  formula with the discount of the 5,000 tier gives 945.
\<close>

theorem emitted_transfer_cost_no_discount:
  "identify_transfer_opportunities (example_rules 5000) example_network
     = Inr [first_transfer (identify_transfer_opportunities (example_rules 5000) example_network)]
   \<and> recommended_transfer (first_transfer
        (identify_transfer_opportunities (example_rules 5000) example_network)) = 7000
   \<and> estimated_transfer_cost (cost_analysis (first_transfer
        (identify_transfer_opportunities (example_rules 5000) example_network))) = 1050
   \<and> 7000 * 0.10 * get_distance_factor ''Atlanta'' ''Chicago'' * volume_discount 7000 = 945
   \<and> volume_discount 7000 < 1"
  by (simp add: example_network_def volume_discount_def optimizer_eval)

text \<open>
  Claim C9: every emitted transfer leaves the projected source utilization at or above the
  target and the projected destination utilization at or below it. The optimizer takes
  the destination's deficit, commented in the code as the amount to bring the destination
  to the target, from the final utilization entry, and projects the destination from the
  inventory entry. The analyzer rounds the one to a decimal and the other to whole units,
  so they disagree: a warehouse of capacity 100 holding 29.6 units is recorded at 29.6\%
  with 30 units in stock. Against a source at 90\% of capacity 1000 it receives its full
  deficit of 50.4 units and is projected at 80.4\%, above the target of 80\%.
\<close>

theorem emitted_transfer_past_target:
  "identify_transfer_opportunities (example_rules 10) rounded_inventory_network
     = Inr [first_transfer (identify_transfer_opportunities (example_rules 10) rounded_inventory_network)]
   \<and> target_util (example_rules 10) = 80
   \<and> destination_warehouse (first_transfer
        (identify_transfer_opportunities (example_rules 10) rounded_inventory_network)) = ''Chicago''
   \<and> dest_utilization (projected_state (first_transfer
        (identify_transfer_opportunities (example_rules 10) rounded_inventory_network))) = 80.4
   \<and> \<not> dest_utilization (projected_state (first_transfer
        (identify_transfer_opportunities (example_rules 10) rounded_inventory_network)))
        \<le> target_util (example_rules 10)"
  by (simp add: rounded_inventory_network_def optimizer_eval)

section \<open>Properties of the impact summary\<close>

lemma utilization_loop_result:
  assumes "utilization_loop base scen whs im = Inr out"
  shows "cost_impact out = cost_impact im"
    and "total_utilization_improvement out
           = total_utilization_improvement im
             + (\<Sum>wh\<leftarrow>whs. \<bar>utilization_in scen wh - utilization_in base wh\<bar>)"
    and "\<And>wh. utilization_changes out wh =
           (if wh \<in> set whs
            then Some \<lparr> baseline = utilization_in base wh,
                        scenario = utilization_in scen wh,
                        change = py_round_n 1 (utilization_in scen wh - utilization_in base wh) \<rparr>
            else utilization_changes im wh)"
  using assms
proof (induction whs arbitrary: im)
  case Nil
  { case 1 then show ?case by simp }
  { case 2 then show ?case by simp }
  { case 3 then show ?case by simp }
next
  case (Cons w rest)
  { case 1
    then show ?case using Cons.IH(1)
      by (auto simp: Let_def split: option.splits) }
  { case 2
    then show ?case using Cons.IH(2)
      by (auto simp: Let_def utilization_in_def split: option.splits) }
  { case 3
    then show ?case using Cons.IH(3)
      by (auto simp: Let_def utilization_in_def split: option.splits) }
qed

text \<open>
  C8, as the code has it. The three cost figures of the impact summary are sums over the
  scenario's transfer set alone (estimated transfer cost, estimated storage savings, net
  benefit); the baseline's transfer set does not enter them. Every warehouse of the
  baseline gets an entry with its baseline utilization, its scenario utilization and their
  difference (scenario minus baseline) rounded to one decimal, and the aggregate is the sum
  over the baseline's warehouses of the absolute values of the unrounded differences.
\<close>

theorem scenario_impact_figures:
  assumes "calculate_scenario_impact base scen transfers = Inr im"
  shows "transfer_costs (cost_impact im)
           = (\<Sum>t\<leftarrow>transfers. estimated_transfer_cost (cost_analysis t))
       \<and> storage_savings (cost_impact im)
           = (\<Sum>t\<leftarrow>transfers. estimated_storage_savings (cost_analysis t))
       \<and> net_impact (cost_impact im)
           = (\<Sum>t\<leftarrow>transfers. net_benefit (cost_analysis t))
       \<and> total_utilization_improvement im
           = (\<Sum>wh\<leftarrow>map fst base. \<bar>utilization_in scen wh - utilization_in base wh\<bar>)
       \<and> (\<forall>wh \<in> set (map fst base).
            utilization_changes im wh
              = Some \<lparr> baseline = utilization_in base wh,
                       scenario = utilization_in scen wh,
                       change = py_round_n 1 (utilization_in scen wh - utilization_in base wh) \<rparr>)"
proof -
  let ?init = "\<lparr> utilization_changes = Map.empty,
         new_alerts_generated = 0,
         transfer_opportunities_created = length transfers,
         total_utilization_improvement = 0,
         cost_impact =
           \<lparr> transfer_costs =
               sum_list (map (\<lambda>t. estimated_transfer_cost (cost_analysis t)) transfers),
             storage_savings =
               sum_list (map (\<lambda>t. estimated_storage_savings (cost_analysis t)) transfers),
             net_impact =
               sum_list (map (\<lambda>t. net_benefit (cost_analysis t)) transfers) \<rparr> \<rparr>"
  from assms have run: "utilization_loop base scen (map fst base) ?init = Inr im"
    by (simp add: calculate_scenario_impact_def)
  note r = utilization_loop_result [OF run]
  have costs: "cost_impact im = cost_impact ?init" by (rule r(1))
  have total: "total_utilization_improvement im
                 = (\<Sum>wh\<leftarrow>map fst base. \<bar>utilization_in scen wh - utilization_in base wh\<bar>)"
    using r(2) by simp
  have entries: "\<forall>wh \<in> set (map fst base).
            utilization_changes im wh
              = Some \<lparr> baseline = utilization_in base wh,
                       scenario = utilization_in scen wh,
                       change = py_round_n 1 (utilization_in scen wh - utilization_in base wh) \<rparr>"
    using r(3) by simp
  show ?thesis
    using total entries by (simp add: costs)
qed

theorem scenario_impact_figures_witness:
  "calculate_scenario_impact example_network rounded_inventory_network
     (projr (identify_transfer_opportunities (example_rules 10) rounded_inventory_network))
     = Inr (projr (calculate_scenario_impact example_network rounded_inventory_network
         (projr (identify_transfer_opportunities (example_rules 10) rounded_inventory_network))))
   \<and> ''Chicago'' \<in> set (map fst example_network)
   \<and> utilization_changes (projr (calculate_scenario_impact example_network rounded_inventory_network
         (projr (identify_transfer_opportunities (example_rules 10) rounded_inventory_network))))
       ''Chicago''
       = Some \<lparr> baseline = 20, scenario = 29.6, change = 9.6 \<rparr>
   \<and> total_utilization_improvement
       (projr (calculate_scenario_impact example_network rounded_inventory_network
         (projr (identify_transfer_opportunities (example_rules 10) rounded_inventory_network))))
       = 9.6
   \<and> transfer_costs (cost_impact
       (projr (calculate_scenario_impact example_network rounded_inventory_network
         (projr (identify_transfer_opportunities (example_rules 10) rounded_inventory_network)))))
       = 7.56"
proof -
  let ?ts = "projr (identify_transfer_opportunities (example_rules 10) rounded_inventory_network)"
  let ?r = "calculate_scenario_impact example_network rounded_inventory_network ?ts"
  have ts: "?ts = [first_transfer
      (identify_transfer_opportunities (example_rules 10) rounded_inventory_network)]"
    by (simp add: rounded_inventory_network_def optimizer_eval)
  have run: "?r = Inr (projr ?r)"
    by (simp add: calculate_scenario_impact_def example_network_def
          rounded_inventory_network_def example_analysis_def Let_def)
  have mem: "''Chicago'' \<in> set (map fst example_network)"
    by (simp add: example_network_def)
  have utils: "utilization_in example_network ''Chicago'' = 20"
    "utilization_in rounded_inventory_network ''Chicago'' = 29.6"
    "utilization_in example_network ''Atlanta'' = 90"
    "utilization_in rounded_inventory_network ''Atlanta'' = 90"
    by (simp_all add: utilization_in_def example_network_def rounded_inventory_network_def
          example_analysis_def)
  have keys: "map fst example_network = [''Atlanta'', ''Chicago'']"
    by (simp add: example_network_def)
  have cost: "estimated_transfer_cost (cost_analysis (first_transfer
      (identify_transfer_opportunities (example_rules 10) rounded_inventory_network))) = 7.56"
    by (simp add: rounded_inventory_network_def optimizer_eval)
  have rnd: "py_round_n 1 (29.6 - 20) = 9.6"
    by (simp add: py_round_n_def py_round_def)
  note t = scenario_impact_figures [OF run]
  from t mem have entry: "utilization_changes (projr ?r) ''Chicago''
      = Some \<lparr> baseline = utilization_in example_network ''Chicago'',
               scenario = utilization_in rounded_inventory_network ''Chicago'',
               change = py_round_n 1 (utilization_in rounded_inventory_network ''Chicago''
                                      - utilization_in example_network ''Chicago'') \<rparr>"
    by blast
  have "utilization_changes (projr ?r) ''Chicago''
          = Some \<lparr> baseline = 20, scenario = 29.6, change = 9.6 \<rparr>"
    by (simp only: entry utils rnd)
  moreover have "total_utilization_improvement (projr ?r) = 9.6"
  proof -
    from t have "total_utilization_improvement (projr ?r)
        = (\<Sum>wh\<leftarrow>map fst example_network.
             \<bar>utilization_in rounded_inventory_network wh - utilization_in example_network wh\<bar>)"
      by blast
    also have "\<dots> = \<bar>90 - 90\<bar> + (\<bar>29.6 - 20\<bar> + 0)"
      by (simp only: keys list.map sum_list.Cons sum_list.Nil utils)
    also have "\<dots> = (9.6 :: real)" by simp
    finally show ?thesis .
  qed
  moreover have "transfer_costs (cost_impact (projr ?r)) = 7.56"
  proof -
    from t have "transfer_costs (cost_impact (projr ?r))
        = (\<Sum>t\<leftarrow>?ts. estimated_transfer_cost (cost_analysis t))"
      by blast
    also have "\<dots> = 7.56"
      by (simp only: ts list.map sum_list.Cons sum_list.Nil cost add_0_right)
    finally show ?thesis .
  qed
  ultimately show ?thesis using run mem by blast
qed

text \<open>
  C8 as stated fails on the cost figures: for a scenario that equals its baseline, the
  scenario's and the baseline's transfer sets coincide, so every cost delta is zero, but
  the summary reports the scenario's own transfer cost of 1,050.
\<close>

theorem scenario_impact_cost_not_delta:
  "identify_transfer_opportunities (example_rules 5000) example_network
     = Inr (projr (identify_transfer_opportunities (example_rules 5000) example_network))
   \<and> calculate_scenario_impact example_network example_network
       (projr (identify_transfer_opportunities (example_rules 5000) example_network))
     = Inr (projr (calculate_scenario_impact example_network example_network
         (projr (identify_transfer_opportunities (example_rules 5000) example_network))))
   \<and> transfer_costs (cost_impact
       (projr (calculate_scenario_impact example_network example_network
         (projr (identify_transfer_opportunities (example_rules 5000) example_network)))))
       = 1050
   \<and> spec_cost_delta (\<lambda>t. estimated_transfer_cost (cost_analysis t))
       (projr (identify_transfer_opportunities (example_rules 5000) example_network))
       (projr (identify_transfer_opportunities (example_rules 5000) example_network))
       = 0"
proof -
  let ?ts = "projr (identify_transfer_opportunities (example_rules 5000) example_network)"
  let ?r = "calculate_scenario_impact example_network example_network ?ts"
  have ts: "identify_transfer_opportunities (example_rules 5000) example_network = Inr ?ts"
    by (simp add: example_network_def optimizer_eval)
  have run: "?r = Inr (projr ?r)"
    by (simp add: calculate_scenario_impact_def example_network_def example_analysis_def Let_def)
  have cost: "map (\<lambda>t. estimated_transfer_cost (cost_analysis t)) ?ts = [1050]"
    by (simp add: example_network_def optimizer_eval)
  have "cost_impact (projr ?r)
          = \<lparr> transfer_costs =
               sum_list (map (\<lambda>t. estimated_transfer_cost (cost_analysis t)) ?ts),
             storage_savings =
               sum_list (map (\<lambda>t. estimated_storage_savings (cost_analysis t)) ?ts),
             net_impact =
               sum_list (map (\<lambda>t. net_benefit (cost_analysis t)) ?ts) \<rparr>"
    using utilization_loop_result(1) [of example_network example_network
        "map fst example_network" _ "projr ?r"] run
    by (simp add: calculate_scenario_impact_def)
  then have "transfer_costs (cost_impact (projr ?r)) = 1050"
    using cost by simp
  moreover have "spec_cost_delta (\<lambda>t. estimated_transfer_cost (cost_analysis t)) ?ts ?ts = 0"
    by (simp add: spec_cost_delta_def)
  ultimately show ?thesis using ts run by blast
qed


section \<open>Properties of the rolling forecast\<close>

subsection \<open>Loops and dictionaries\<close>

lemma for_each_invariant_from:
  assumes "for_each body zs t = Inr s'"
    and "I ys t"
    and "\<And>ys' x zs' t u. ys @ zs = ys' @ x # zs' \<Longrightarrow> I ys' t \<Longrightarrow> body x t = Inr u
           \<Longrightarrow> I (ys' @ [x]) u"
  shows "I (ys @ zs) s'"
  using assms
proof (induction zs arbitrary: ys t)
  case Nil
  then show ?case by simp
next
  case (Cons x zs)
  from Cons.prems(1) obtain u where u: "body x t = Inr u" and rest: "for_each body zs u = Inr s'"
    by (auto split: sum.splits)
  have "I (ys @ [x]) u"
    using Cons.prems(3) [of ys x zs t u] Cons.prems(2) u by simp
  then have "I ((ys @ [x]) @ zs) s'"
    using Cons.IH [of u "ys @ [x]"] rest Cons.prems(3) by simp
  then show ?case by simp
qed

lemma for_each_invariant:
  assumes "for_each body xs s = Inr s'"
    and "I [] s"
    and "\<And>ys x zs t u. xs = ys @ x # zs \<Longrightarrow> I ys t \<Longrightarrow> body x t = Inr u \<Longrightarrow> I (ys @ [x]) u"
  shows "I xs s'"
  using for_each_invariant_from [of body xs s s' I "[]"] assms by simp

lemma for_each_returns:
  assumes "I s"
    and "\<And>x t. x \<in> set xs \<Longrightarrow> I t \<Longrightarrow> \<exists>u. body x t = Inr u \<and> I u"
  shows "\<exists>s'. for_each body xs s = Inr s' \<and> I s'"
  using assms
proof (induction xs arbitrary: s)
  case Nil
  then show ?case by simp
next
  case (Cons x xs)
  from Cons.prems obtain u where u: "body x s = Inr u" "I u"
    by (meson list.set_intros(1))
  from Cons.IH [of u] u(2) Cons.prems(2) obtain s' where "for_each body xs u = Inr s'" "I s'"
    by (meson list.set_intros(2))
  with u(1) show ?case by simp
qed

lemma fold_preserves:
  assumes "\<And>x s. g (h x s) = g s"
  shows "g (fold h xs s) = g s"
  using assms by (induction xs arbitrary: s) simp_all

lemma dict_set_fresh:
  "k \<notin> fst ` set kvs \<Longrightarrow> dict_set k v kvs = kvs @ [(k, v)]"
  by (induction kvs) auto

lemma map_of_dict_set:
  "map_of (dict_set k v kvs) = (map_of kvs)(k \<mapsto> v)"
  by (induction kvs) (auto simp add: fun_eq_iff)

lemma concat_map_single:
  assumes "distinct xs" and "x \<in> set xs"
    and "\<And>y. y \<in> set xs \<Longrightarrow> y \<noteq> x \<Longrightarrow> h y = []"
  shows "concat (map h xs) = h x"
  using assms
proof (induction xs)
  case Nil
  then show ?case by simp
next
  case (Cons y ys)
  show ?case
  proof (cases "y = x")
    case True
    with Cons.prems have "\<And>z. z \<in> set ys \<Longrightarrow> h z = []" by auto
    then have "concat (map h ys) = []" by (induction ys) simp_all
    with True show ?thesis by simp
  next
    case False
    with Cons show ?thesis by auto
  qed
qed

lemma concat_map_none:
  assumes "\<And>y. y \<in> set xs \<Longrightarrow> h y = []"
  shows "concat (map h xs) = []"
  using assms by (induction xs) simp_all

subsection \<open>Forecast months\<close>

lemma forecast_date_inj: "forecast_date i = forecast_date j \<Longrightarrow> i = j"
proof -
  assume "forecast_date i = forecast_date j"
  then have "i div 12 = j div 12" and "i mod 12 = j mod 12"
    by (simp_all add: forecast_date_def)
  then show "i = j"
    by (metis div_mult_mod_eq)
qed

lemma forecast_date_fresh: "forecast_date k \<notin> fst ` set (map (\<lambda>i. (forecast_date i, g i)) [0..<k])"
  by (auto dest: forecast_date_inj)

lemma warehouses_distinct: "distinct warehouses"
  by (simp add: warehouses_def)

lemma products_distinct: "distinct products"
  by (simp add: products_def)

subsection \<open>Flow prediction\<close>

lemma store_prediction_frame:
  "rolling_position (store_prediction f d w p ft s) = rolling_position s"
  "rolling_inventory (res (store_prediction f d w p ft s)) = rolling_inventory (res s)"
  "monthly_positions (res (store_prediction f d w p ft s)) = monthly_positions (res s)"
  "alerts (res (store_prediction f d w p ft s)) = alerts (res s)"
  by (simp_all add: store_prediction_def split: prod.splits)

lemma predict_flows_frame:
  "rolling_position (predict_flows f d s) = rolling_position s"
  "rolling_inventory (res (predict_flows f d s)) = rolling_inventory (res s)"
  "monthly_positions (res (predict_flows f d s)) = monthly_positions (res s)"
  "alerts (res (predict_flows f d s)) = alerts (res s)"
  unfolding predict_flows_def
  by (intro fold_preserves store_prediction_frame)+

lemma store_prediction_lookup:
  "map_of (monthly_forecasts (store_prediction f d w p ft s) k) d =
     (if k = (w, p, ft) then Some (predict_flow f d w p ft)
      else map_of (monthly_forecasts s k) d)"
  by (simp add: store_prediction_def map_of_dict_set split: prod.splits)

lemma flows_lookup:
  "map_of (monthly_forecasts (fold (store_prediction f d w p) [inflows, outflows] s) (w', p', ft)) d =
     (if w' = w \<and> p' = p then Some (predict_flow f d w p ft)
      else map_of (monthly_forecasts s (w', p', ft)) d)"
  by (cases ft) (simp_all add: store_prediction_lookup)

lemma products_lookup:
  "map_of (monthly_forecasts
       (fold (\<lambda>p. fold (store_prediction f d w p) [inflows, outflows]) ps s) (w', p', ft)) d =
     (if w' = w \<and> p' \<in> set ps then Some (predict_flow f d w p' ft)
      else map_of (monthly_forecasts s (w', p', ft)) d)"
proof -
  define body where "body = (\<lambda>p. fold (store_prediction f d w p) [inflows, outflows])"
  have step: "map_of (monthly_forecasts (body p t) (w', p', ft)) d =
     (if w' = w \<and> p' = p then Some (predict_flow f d w p ft)
      else map_of (monthly_forecasts t (w', p', ft)) d)" for p t w' p' ft
    unfolding body_def by (rule flows_lookup)
  have "map_of (monthly_forecasts (fold body ps s) (w', p', ft)) d =
     (if w' = w \<and> p' \<in> set ps then Some (predict_flow f d w p' ft)
      else map_of (monthly_forecasts s (w', p', ft)) d)"
  proof (induction ps arbitrary: s)
    case Nil
    then show ?case by simp
  next
    case (Cons p ps)
    show ?case by (auto simp add: Cons.IH step)
  qed
  then show ?thesis unfolding body_def .
qed

lemma warehouses_lookup:
  "map_of (monthly_forecasts
       (fold (\<lambda>w. fold (\<lambda>p. fold (store_prediction f d w p) [inflows, outflows]) ps) ws s)
       (w', p', ft)) d =
     (if w' \<in> set ws \<and> p' \<in> set ps then Some (predict_flow f d w' p' ft)
      else map_of (monthly_forecasts s (w', p', ft)) d)"
proof -
  define body where
    "body = (\<lambda>w. fold (\<lambda>p. fold (store_prediction f d w p) [inflows, outflows]) ps)"
  have step: "map_of (monthly_forecasts (body w t) (w', p', ft)) d =
     (if w' = w \<and> p' \<in> set ps then Some (predict_flow f d w p' ft)
      else map_of (monthly_forecasts t (w', p', ft)) d)" for w t w' p' ft
    unfolding body_def by (rule products_lookup)
  have "map_of (monthly_forecasts (fold body ws s) (w', p', ft)) d =
     (if w' \<in> set ws \<and> p' \<in> set ps then Some (predict_flow f d w' p' ft)
      else map_of (monthly_forecasts s (w', p', ft)) d)"
  proof (induction ws arbitrary: s)
    case Nil
    then show ?case by simp
  next
    case (Cons w ws)
    show ?case by (auto simp add: Cons.IH step)
  qed
  then show ?thesis unfolding body_def .
qed

lemma predict_flows_lookup:
  "w \<in> set warehouses \<Longrightarrow> p \<in> set products \<Longrightarrow>
   map_of (monthly_forecasts (predict_flows f d s) (w, p, ft)) d = Some (predict_flow f d w p ft)"
  unfolding predict_flows_def warehouses_lookup by simp

subsection \<open>One product in one month\<close>

lemma capacity_of_the_capacity: "capacity_of f w = Inr c \<Longrightarrow> the_capacity f w = c"
  by (simp add: the_capacity_def)

lemma ledger_append:
  "dict_set (forecast_date k) (snd (ledger f w p k)) (map (ledger f w p) [0..<k])
     = map (ledger f w p) [0..<Suc k]"
proof -
  have "forecast_date k \<notin> fst ` set (map (ledger f w p) [0..<k])"
    by (auto simp add: ledger_def dest: forecast_date_inj)
  then have "dict_set (forecast_date k) (snd (ledger f w p k)) (map (ledger f w p) [0..<k])
     = map (ledger f w p) [0..<k] @ [(forecast_date k, snd (ledger f w p k))]"
    by (rule dict_set_fresh)
  also have "(forecast_date k, snd (ledger f w p k)) = ledger f w p k"
    by (simp add: ledger_def)
  finally show ?thesis by simp
qed

lemma update_position_effect:
  assumes run: "update_position f (forecast_date k) w p (s, pos) = Inr (s', pos')"
    and fc: "forecasts_inv f (forecast_date k) s"
    and w: "w \<in> set warehouses" and p: "p \<in> set products"
  shows "capacity_of f w = Inr (the_capacity f w)"
    and "the_capacity f w \<noteq> 0"
    and "rolling_position s' = (rolling_position s)
           ((w, p) := max 0 (rolling_position s (w, p) + (inflow_of f w p k - outflow_of f w p k)))"
    and "rolling_inventory (res s') = (rolling_inventory (res s))
           ((w, p) := dict_set (forecast_date k)
              \<lparr> starting_position = py_round (rolling_position s (w, p)),
                inflow = py_round (inflow_of f w p k),
                outflow = py_round (outflow_of f w p k),
                net_flow = py_round (inflow_of f w p k - outflow_of f w p k),
                ending_position = py_round (max 0 (rolling_position s (w, p)
                                   + (inflow_of f w p k - outflow_of f w p k))),
                capacity_utilization = py_round_n 1 (max 0 (rolling_position s (w, p)
                                   + (inflow_of f w p k - outflow_of f w p k))
                                   / the_capacity f w * 100) \<rparr>
              (rolling_inventory (res s) (w, p)))"
    and "monthly_forecasts s' = monthly_forecasts s"
    and "monthly_positions (res s') = monthly_positions (res s)"
    and "alerts (res s') = alerts (res s)"
    and "warehouse_total_after pos' = warehouse_total_after pos
           + max 0 (rolling_position s (w, p) + (inflow_of f w p k - outflow_of f w p k))"
proof -
  have fin: "map_of (monthly_forecasts s (w, p, inflows)) (forecast_date k)
               = Some (predict_flow f (forecast_date k) w p inflows)"
    and fout: "map_of (monthly_forecasts s (w, p, outflows)) (forecast_date k)
               = Some (predict_flow f (forecast_date k) w p outflows)"
    using fc w p unfolding forecasts_inv_def by auto
  from run obtain c where c: "capacity_of f w = Inr c" and nz: "c \<noteq> 0"
    unfolding update_position_def
    by (auto simp add: fin fout Let_def split: sum.splits if_splits)
  have tc: "the_capacity f w = c"
    using c by (rule capacity_of_the_capacity)
  show "capacity_of f w = Inr (the_capacity f w)" and "the_capacity f w \<noteq> 0"
    using c nz tc by simp_all
  from run have eq: "(s', pos') =
      (s\<lparr> rolling_position := (rolling_position s)
            ((w, p) := max 0 (rolling_position s (w, p) + (inflow_of f w p k - outflow_of f w p k))),
          res := (res s)
            \<lparr> net_flow_forecasts := (net_flow_forecasts (res s))
                ((w, p) := dict_set (forecast_date k)
                   \<lparr> net_forecast = py_round (inflow_of f w p k - outflow_of f w p k),
                     status = (if inflow_of f w p k - outflow_of f w p k > 0
                               then ''SURPLUS'' else ''DEFICIT'') \<rparr>
                   (net_flow_forecasts (res s) (w, p))),
              rolling_inventory := (rolling_inventory (res s))
                ((w, p) := dict_set (forecast_date k)
                   \<lparr> starting_position = py_round (rolling_position s (w, p)),
                     inflow = py_round (inflow_of f w p k),
                     outflow = py_round (outflow_of f w p k),
                     net_flow = py_round (inflow_of f w p k - outflow_of f w p k),
                     ending_position = py_round (max 0 (rolling_position s (w, p)
                                        + (inflow_of f w p k - outflow_of f w p k))),
                     capacity_utilization = py_round_n 1 (max 0 (rolling_position s (w, p)
                                        + (inflow_of f w p k - outflow_of f w p k))
                                        / c * 100) \<rparr>
                   (rolling_inventory (res s) (w, p))) \<rparr> \<rparr>,
       pos\<lparr> position_products := dict_set p
              \<lparr> before = py_round (rolling_position s (w, p)),
                after = py_round (max 0 (rolling_position s (w, p)
                          + (inflow_of f w p k - outflow_of f w p k))) \<rparr>
              (position_products pos),
            warehouse_total_before := warehouse_total_before pos + rolling_position s (w, p),
            warehouse_total_after := warehouse_total_after pos
              + max 0 (rolling_position s (w, p)
                   + (inflow_of f w p k - outflow_of f w p k)) \<rparr>)"
    unfolding update_position_def
    by (simp add: fin fout c nz Let_def inflow_of_def outflow_of_def)
  from eq have s': "s' = fst (s', pos')" and pos': "pos' = snd (s', pos')"
    by simp_all
  show "rolling_position s' = (rolling_position s)
           ((w, p) := max 0 (rolling_position s (w, p) + (inflow_of f w p k - outflow_of f w p k)))"
    by (subst s', subst eq) simp
  show "rolling_inventory (res s') = (rolling_inventory (res s))
           ((w, p) := dict_set (forecast_date k)
              \<lparr> starting_position = py_round (rolling_position s (w, p)),
                inflow = py_round (inflow_of f w p k),
                outflow = py_round (outflow_of f w p k),
                net_flow = py_round (inflow_of f w p k - outflow_of f w p k),
                ending_position = py_round (max 0 (rolling_position s (w, p)
                                   + (inflow_of f w p k - outflow_of f w p k))),
                capacity_utilization = py_round_n 1 (max 0 (rolling_position s (w, p)
                                   + (inflow_of f w p k - outflow_of f w p k))
                                   / the_capacity f w * 100) \<rparr>
              (rolling_inventory (res s) (w, p)))"
    by (subst s', subst eq) (simp add: tc)
  show "monthly_forecasts s' = monthly_forecasts s"
    by (subst s', subst eq) simp
  show "monthly_positions (res s') = monthly_positions (res s)"
    by (subst s', subst eq) simp
  show "alerts (res s') = alerts (res s)"
    by (subst s', subst eq) simp
  show "warehouse_total_after pos' = warehouse_total_after pos
           + max 0 (rolling_position s (w, p) + (inflow_of f w p k - outflow_of f w p k))"
    by (subst pos', subst eq) simp
qed

lemma update_position_inv:
  assumes run: "update_position f (forecast_date k) w p (s, pos) = Inr (s', pos')"
    and pi: "positions_inv f k D s"
    and fc: "forecasts_inv f (forecast_date k) s"
    and w: "w \<in> set warehouses" and p: "p \<in> set products"
    and fresh: "(w, p) \<notin> D"
  shows "positions_inv f k (insert (w, p) D) s'"
    and "forecasts_inv f (forecast_date k) s'"
    and "monthly_positions (res s') = monthly_positions (res s)"
    and "alerts (res s') = alerts (res s)"
    and "warehouse_total_after pos' = warehouse_total_after pos + carried_position f w p (Suc k)"
proof -
  note eff = update_position_effect [OF run fc w p]
  have before: "rolling_position s (w, p) = carried_position f w p k"
    and led: "rolling_inventory (res s) (w, p) = map (ledger f w p) [0..<k]"
    using pi w p fresh unfolding positions_inv_def by auto
  have after: "max 0 (rolling_position s (w, p) + (inflow_of f w p k - outflow_of f w p k))
                 = carried_position f w p (Suc k)"
    by (simp add: before)
  have rp: "rolling_position s' = (rolling_position s)((w, p) := carried_position f w p (Suc k))"
    using eff(3) by (simp only: after)
  have "rolling_inventory (res s') = (rolling_inventory (res s))
           ((w, p) := dict_set (forecast_date k) (snd (ledger f w p k)) (map (ledger f w p) [0..<k]))"
    using eff(4) unfolding after led by (simp add: ledger_def before)
  then have ri: "rolling_inventory (res s') = (rolling_inventory (res s))
           ((w, p) := map (ledger f w p) [0..<Suc k])"
    by (simp only: ledger_append)
  show "positions_inv f k (insert (w, p) D) s'"
    unfolding positions_inv_def
  proof (intro ballI)
    fix w' p'
    assume w': "w' \<in> set warehouses" and p': "p' \<in> set products"
    have old: "rolling_position s (w', p')
                 = carried_position f w' p' (if (w', p') \<in> D then Suc k else k)"
      "rolling_inventory (res s) (w', p')
         = map (ledger f w' p') [0..<(if (w', p') \<in> D then Suc k else k)]"
      using pi w' p' unfolding positions_inv_def by auto
    show "rolling_position s' (w', p')
            = carried_position f w' p' (if (w', p') \<in> insert (w, p) D then Suc k else k) \<and>
          rolling_inventory (res s') (w', p')
            = map (ledger f w' p') [0..<(if (w', p') \<in> insert (w, p) D then Suc k else k)]"
    proof (cases "(w', p') = (w, p)")
      case True
      then show ?thesis by (simp add: rp ri)
    next
      case False
      then show ?thesis using old by (simp add: rp ri)
    qed
  qed
  show "forecasts_inv f (forecast_date k) s'"
    using fc unfolding forecasts_inv_def eff(5) .
  show "monthly_positions (res s') = monthly_positions (res s)"
    by (rule eff(6))
  show "alerts (res s') = alerts (res s)"
    by (rule eff(7))
  show "warehouse_total_after pos' = warehouse_total_after pos + carried_position f w p (Suc k)"
    using eff(8) by (simp only: after)
qed

subsection \<open>The products of one warehouse in one month\<close>

lemma product_loop_inv:
  assumes run: "for_each (update_position f (forecast_date k) w) products (s, pos) = Inr (s', pos')"
    and pi: "positions_inv f k D s"
    and fc: "forecasts_inv f (forecast_date k) s"
    and w: "w \<in> set warehouses"
    and fresh: "\<And>p. (w, p) \<notin> D"
  shows "positions_inv f k (D \<union> {w} \<times> set products) s'"
    and "forecasts_inv f (forecast_date k) s'"
    and "monthly_positions (res s') = monthly_positions (res s)"
    and "alerts (res s') = alerts (res s)"
    and "warehouse_total_after pos' = warehouse_total_after pos + total_after f w k"
proof -
  define I where "I = (\<lambda>ps (sp :: simulation \<times> monthly_position).
     positions_inv f k (D \<union> {w} \<times> set ps) (fst sp) \<and>
     forecasts_inv f (forecast_date k) (fst sp) \<and>
     monthly_positions (res (fst sp)) = monthly_positions (res s) \<and>
     alerts (res (fst sp)) = alerts (res s) \<and>
     warehouse_total_after (snd sp) = warehouse_total_after pos
       + sum_list (map (\<lambda>p. carried_position f w p (Suc k)) ps))"
  have "I products (s', pos')"
  proof (rule for_each_invariant [OF run])
    show "I [] (s, pos)"
      using pi fc by (simp add: I_def)
  next
    fix ys x zs t u
    assume parts: "products = ys @ x # zs" and inv: "I ys t"
      and step: "update_position f (forecast_date k) w x t = Inr u"
    obtain s1 pos1 where t: "t = (s1, pos1)" by (cases t)
    obtain s2 pos2 where u: "u = (s2, pos2)" by (cases u)
    have "x \<in> set (ys @ x # zs)" by simp
    then have x: "x \<in> set products" by (simp only: parts)
    have "distinct (ys @ x # zs)" using products_distinct by (simp only: parts)
    then have "x \<notin> set ys" by simp
    then have fresh': "(w, x) \<notin> D \<union> {w} \<times> set ys" using fresh by simp
    have ins: "insert (w, x) (D \<union> {w} \<times> set ys) = D \<union> {w} \<times> set (ys @ [x])"
      by auto
    note st = update_position_inv [OF step [unfolded t u] _ _ w x fresh']
    from inv have a: "positions_inv f k (D \<union> {w} \<times> set ys) s1"
      and b: "forecasts_inv f (forecast_date k) s1"
      and c: "monthly_positions (res s1) = monthly_positions (res s)"
      and d: "alerts (res s1) = alerts (res s)"
      and e: "warehouse_total_after pos1 = warehouse_total_after pos
                + sum_list (map (\<lambda>p. carried_position f w p (Suc k)) ys)"
      by (simp_all add: I_def t)
    have q1: "positions_inv f k (D \<union> {w} \<times> set (ys @ [x])) s2"
      using st(1) [OF a b] by (simp only: ins)
    have q3: "monthly_positions (res s2) = monthly_positions (res s)"
      using st(3) [OF a b] c by simp
    have q4: "alerts (res s2) = alerts (res s)"
      using st(4) [OF a b] d by simp
    have q5: "warehouse_total_after pos2 = warehouse_total_after pos
                + sum_list (map (\<lambda>p. carried_position f w p (Suc k)) (ys @ [x]))"
      using st(5) [OF a b] e by simp
    show "I (ys @ [x]) u"
      unfolding I_def u fst_conv snd_conv
      by (intro conjI q1 st(2) [OF a b] q3 q4 q5)
  qed
  then show "positions_inv f k (D \<union> {w} \<times> set products) s'"
    and "forecasts_inv f (forecast_date k) s'"
    and "monthly_positions (res s') = monthly_positions (res s)"
    and "alerts (res s') = alerts (res s)"
    and "warehouse_total_after pos' = warehouse_total_after pos + total_after f w k"
    by (simp_all add: I_def total_after_def)
qed

subsection \<open>One warehouse in one month\<close>

lemma emit_alert_frame:
  "rolling_position (emit_alert w d u s) = rolling_position s"
  "monthly_forecasts (emit_alert w d u s) = monthly_forecasts s"
  "rolling_inventory (res (emit_alert w d u s)) = rolling_inventory (res s)"
  "monthly_positions (res (emit_alert w d u s)) = monthly_positions (res s)"
  "alerts (res (emit_alert w d u s)) = alerts (res s) @
     [\<lparr> warehouse = w, alert_date = d, alert_type = ''OVER_CAPACITY'',
        severity = (if u > 95 then ''HIGH'' else ''MEDIUM'') \<rparr>]"
  by (simp_all add: emit_alert_def Let_def)

lemma update_warehouse_effect:
  assumes run: "update_warehouse f (forecast_date k) w s = Inr s'"
    and pi: "positions_inv f k D s"
    and fc: "forecasts_inv f (forecast_date k) s"
    and w: "w \<in> set warehouses"
    and fresh: "\<And>p. (w, p) \<notin> D"
  shows "positions_inv f k (D \<union> {w} \<times> set products) s'"
    and "forecasts_inv f (forecast_date k) s'"
    and "alerts (res s') = alerts (res s) @ alert_for f k w"
    and "\<exists>pos. warehouse_total_after pos = total_after f w k \<and>
           monthly_positions (res s') = (monthly_positions (res s))
             (w := monthly_positions (res s) w @ [pos])"
    and "capacity_of f w = Inr (the_capacity f w)"
    and "the_capacity f w \<noteq> 0"
proof -
  let ?pos0 = "\<lparr> date = forecast_date k, position_products = [], warehouse_total_before = 0,
                 warehouse_total_after = 0, position_utilization = None \<rparr>"
  from run obtain s1 pos c where
    loop: "for_each (update_position f (forecast_date k) w) products (s, ?pos0) = Inr (s1, pos)"
    and c: "capacity_of f w = Inr c" and nz: "c \<noteq> 0"
    unfolding update_warehouse_def
    by (auto split: sum.splits if_splits)
  note lp = product_loop_inv [OF loop pi fc w fresh]
  have tc: "the_capacity f w = c"
    using c by (rule capacity_of_the_capacity)
  show "capacity_of f w = Inr (the_capacity f w)" and "the_capacity f w \<noteq> 0"
    using c nz tc by simp_all
  have total: "warehouse_total_after pos = total_after f w k"
    using lp(5) by simp
  define u where "u = warehouse_total_after pos / c * 100"
  have u: "u = utilization_of f w k"
    by (simp add: u_def utilization_of_def total tc)
  define s2 where "s2 = (if u > 90 then emit_alert w (forecast_date k) u s1 else s1)"
  define pos' where "pos' = pos\<lparr> position_utilization := Some (py_round_n 1 u) \<rparr>"
  have "update_warehouse f (forecast_date k) w s = Inr (s2\<lparr> res := (res s2)
      \<lparr> monthly_positions := (monthly_positions (res s2))
          (w := monthly_positions (res s2) w @ [pos']) \<rparr> \<rparr>)"
    unfolding update_warehouse_def
    by (simp add: loop c nz Let_def s2_def pos'_def u_def)
  with run have s': "s' = s2\<lparr> res := (res s2)
      \<lparr> monthly_positions := (monthly_positions (res s2))
          (w := monthly_positions (res s2) w @ [pos']) \<rparr> \<rparr>"
    by simp
  have frame: "rolling_position s2 = rolling_position s1"
    "monthly_forecasts s2 = monthly_forecasts s1"
    "rolling_inventory (res s2) = rolling_inventory (res s1)"
    "monthly_positions (res s2) = monthly_positions (res s1)"
    by (simp_all add: s2_def emit_alert_frame)
  have al: "alerts (res s2) = alerts (res s1) @ alert_for f k w"
    by (simp add: s2_def emit_alert_frame alert_for_def u [symmetric])
  show "positions_inv f k (D \<union> {w} \<times> set products) s'"
    using lp(1) unfolding positions_inv_def by (simp add: s' frame)
  show "forecasts_inv f (forecast_date k) s'"
    using lp(2) unfolding forecasts_inv_def by (simp add: s' frame)
  show "alerts (res s') = alerts (res s) @ alert_for f k w"
    by (simp add: s' al lp(4))
  have "warehouse_total_after pos' = total_after f w k"
    by (simp add: pos'_def total)
  moreover have "monthly_positions (res s') = (monthly_positions (res s))
             (w := monthly_positions (res s) w @ [pos'])"
    by (simp add: s' frame lp(3))
  ultimately show "\<exists>pos. warehouse_total_after pos = total_after f w k \<and>
           monthly_positions (res s') = (monthly_positions (res s))
             (w := monthly_positions (res s) w @ [pos])"
    by blast
qed

lemma update_warehouse_inv:
  assumes run: "update_warehouse f (forecast_date k) w s = Inr s'"
    and pi: "positions_inv f k (set ws \<times> set products) s"
    and ti: "totals_inv f k ws s"
    and fc: "forecasts_inv f (forecast_date k) s"
    and w: "w \<in> set warehouses"
    and fresh: "w \<notin> set ws"
  shows "positions_inv f k (set (ws @ [w]) \<times> set products) s'"
    and "totals_inv f k (ws @ [w]) s'"
    and "forecasts_inv f (forecast_date k) s'"
proof -
  have fresh': "\<And>p. (w, p) \<notin> set ws \<times> set products"
    using fresh by simp
  note eff = update_warehouse_effect [OF run pi fc w fresh']
  have sets: "set ws \<times> set products \<union> {w} \<times> set products = set (ws @ [w]) \<times> set products"
    by auto
  show "positions_inv f k (set (ws @ [w]) \<times> set products) s'"
    using eff(1) by (simp only: sets)
  show "forecasts_inv f (forecast_date k) s'"
    by (rule eff(2))
  from eff(4) obtain pos where tot: "warehouse_total_after pos = total_after f w k"
    and mp: "monthly_positions (res s') = (monthly_positions (res s))
               (w := monthly_positions (res s) w @ [pos])"
    by blast
  have old: "\<And>w'. w' \<in> set warehouses \<Longrightarrow>
      map warehouse_total_after (monthly_positions (res s) w')
        = map (total_after f w') [0..<(if w' \<in> set ws then Suc k else k)]"
    and alerts_old: "alerts (res s)
        = concat (map (month_alerts f) [0..<k]) @ concat (map (alert_for f k) ws)"
    using ti unfolding totals_inv_def by auto
  have totals: "map warehouse_total_after (monthly_positions (res s') w')
        = map (total_after f w') [0..<(if w' \<in> set (ws @ [w]) then Suc k else k)]"
    if w': "w' \<in> set warehouses" for w'
  proof (cases "w' = w")
    case True
    then show ?thesis using old [OF w] fresh by (simp add: mp tot)
  next
    case False
    then show ?thesis using old [OF w'] by (simp add: mp)
  qed
  have "alerts (res s')
          = concat (map (month_alerts f) [0..<k]) @ concat (map (alert_for f k) (ws @ [w]))"
    by (simp add: eff(3) alerts_old)
  with totals show "totals_inv f k (ws @ [w]) s'"
    unfolding totals_inv_def by blast
qed

subsection \<open>One month\<close>

lemma simulate_month_inv:
  assumes run: "simulate_month f (forecast_date k) s = Inr s'"
    and pi: "positions_inv f k {} s"
    and ti: "totals_inv f k [] s"
  shows "positions_inv f (Suc k) {} s'"
    and "totals_inv f (Suc k) [] s'"
proof -
  let ?d = "forecast_date k"
  let ?s1 = "predict_flows f ?d s"
  define I where "I = (\<lambda>ws (t :: simulation). positions_inv f k (set ws \<times> set products) t \<and>
     totals_inv f k ws t \<and> forecasts_inv f ?d t)"
  from run have loop: "for_each (update_warehouse f ?d) warehouses ?s1 = Inr s'"
    by (simp add: simulate_month_def)
  have "I warehouses s'"
  proof (rule for_each_invariant [OF loop])
    have "positions_inv f k {} ?s1"
      using pi unfolding positions_inv_def by (simp add: predict_flows_frame)
    moreover have "totals_inv f k [] ?s1"
      using ti unfolding totals_inv_def by (simp add: predict_flows_frame)
    moreover have "forecasts_inv f ?d ?s1"
      unfolding forecasts_inv_def by (simp add: predict_flows_lookup)
    ultimately show "I [] ?s1"
      by (simp add: I_def)
  next
    fix ys x zs t u
    assume parts: "warehouses = ys @ x # zs" and inv: "I ys t"
      and step: "update_warehouse f ?d x t = Inr u"
    have "x \<in> set (ys @ x # zs)" by simp
    then have x: "x \<in> set warehouses" by (simp only: parts)
    have "distinct (ys @ x # zs)" using warehouses_distinct by (simp only: parts)
    then have fresh: "x \<notin> set ys" by simp
    from inv have a: "positions_inv f k (set ys \<times> set products) t"
      and b: "totals_inv f k ys t" and c: "forecasts_inv f ?d t"
      by (simp_all add: I_def)
    show "I (ys @ [x]) u"
      unfolding I_def
      by (intro conjI update_warehouse_inv [OF step a b c x fresh])
  qed
  then have a: "positions_inv f k (set warehouses \<times> set products) s'"
    and b: "totals_inv f k warehouses s'"
    by (simp_all add: I_def)
  show "positions_inv f (Suc k) {} s'"
    using a unfolding positions_inv_def by simp
  show "totals_inv f (Suc k) [] s'"
    using b unfolding totals_inv_def by (simp add: month_alerts_def)
qed

subsection \<open>The whole simulation\<close>

lemma forecast_dates_nth:
  assumes "forecast_dates h = ys @ x # zs"
  shows "x = forecast_date (length ys)"
proof -
  have "length (forecast_dates h) = length (ys @ x # zs)"
    by (simp only: assms)
  then have len: "length ys < h"
    by (simp add: forecast_dates_def)
  have "forecast_dates h ! length ys = (ys @ x # zs) ! length ys"
    by (simp only: assms)
  then show ?thesis
    using len by (simp add: forecast_dates_def)
qed

lemma months_inv:
  assumes run: "for_each (simulate_month f) (forecast_dates h) s = Inr s'"
    and pi: "positions_inv f 0 {} s"
    and ti: "totals_inv f 0 [] s"
  shows "positions_inv f h {} s'"
    and "totals_inv f h [] s'"
proof -
  define I where "I = (\<lambda>(ds :: month_key list) (t :: simulation).
     positions_inv f (length ds) {} t \<and> totals_inv f (length ds) [] t)"
  have "I (forecast_dates h) s'"
  proof (rule for_each_invariant [OF run])
    show "I [] s" using pi ti by (simp add: I_def)
  next
    fix ys x zs t u
    assume parts: "forecast_dates h = ys @ x # zs" and inv: "I ys t"
      and step: "simulate_month f x t = Inr u"
    have x: "x = forecast_date (length ys)"
      using parts by (rule forecast_dates_nth)
    from inv have a: "positions_inv f (length ys) {} t" and b: "totals_inv f (length ys) [] t"
      by (simp_all add: I_def)
    show "I (ys @ [x]) u"
      using simulate_month_inv [OF step [unfolded x] a b] by (simp add: I_def)
  qed
  then show "positions_inv f h {} s'" and "totals_inv f h [] s'"
    by (simp_all add: I_def forecast_dates_def)
qed

lemma register_warehouse_frame:
  assumes "register_warehouse f w s = Inr s'"
  shows "rolling_position s' = rolling_position s"
    and "rolling_inventory (res s') = rolling_inventory (res s)"
    and "monthly_positions (res s') = monthly_positions (res s)"
    and "alerts (res s') = alerts (res s)"
  using assms by (auto simp add: register_warehouse_def split: option.splits)

lemma registered_inv:
  assumes run: "for_each (register_warehouse f) warehouses (initial_simulation f h) = Inr s"
  shows "positions_inv f 0 {} s" and "totals_inv f 0 [] s"
proof -
  define I where "I = (\<lambda>(ws :: string list) (t :: simulation).
     rolling_position t = starting_inventory f \<and>
     rolling_inventory (res t) = (\<lambda>k. []) \<and>
     monthly_positions (res t) = (\<lambda>w. []) \<and>
     alerts (res t) = [])"
  have "I warehouses s"
  proof (rule for_each_invariant [OF run])
    show "I [] (initial_simulation f h)"
      by (simp add: I_def initial_simulation_def)
  next
    fix ys x zs t u
    assume inv: "I ys t" and step: "register_warehouse f x t = Inr u"
    show "I (ys @ [x]) u"
      using inv register_warehouse_frame [OF step] by (simp add: I_def)
  qed
  then show "positions_inv f 0 {} s" and "totals_inv f 0 [] s"
    by (simp_all add: I_def positions_inv_def totals_inv_def)
qed

lemma generated_results:
  assumes run: "generate_rolling_forecast f h = Inr r"
  shows "\<And>w p. w \<in> set warehouses \<Longrightarrow> p \<in> set products \<Longrightarrow>
           rolling_inventory r (w, p) = map (ledger f w p) [0..<h]"
    and "\<And>w. w \<in> set warehouses \<Longrightarrow>
           map warehouse_total_after (monthly_positions r w) = map (total_after f w) [0..<h]"
    and "alerts r = concat (map (month_alerts f) [0..<h])"
    and "\<exists>r0. summary r = Some (generate_network_summary r0)"
proof -
  from run obtain s0 s where
    init: "for_each (register_warehouse f) warehouses (initial_simulation f h) = Inr s0"
    and loop: "for_each (simulate_month f) (forecast_dates h) s0 = Inr s"
    and r: "r = (res s)\<lparr> summary := Some (generate_network_summary (res s)) \<rparr>"
    unfolding generate_rolling_forecast_def
    by (auto split: sum.splits)
  note fin = months_inv [OF loop registered_inv [OF init]]
  show "rolling_inventory r (w, p) = map (ledger f w p) [0..<h]"
    if "w \<in> set warehouses" "p \<in> set products" for w p
    using fin(1) that unfolding positions_inv_def by (simp add: r)
  show "map warehouse_total_after (monthly_positions r w) = map (total_after f w) [0..<h]"
    if "w \<in> set warehouses" for w
    using fin(2) that unfolding totals_inv_def by (simp add: r)
  show "alerts r = concat (map (month_alerts f) [0..<h])"
    using fin(2) unfolding totals_inv_def by (simp add: r)
  show "\<exists>r0. summary r = Some (generate_network_summary r0)"
    by (auto simp add: r)
qed

subsection \<open>The simulation returns\<close>

text \<open>
  With a nonzero capacity recorded for every warehouse no step of the simulation raises, so
  \<open>generate_rolling_forecast\<close> returns a result for every horizon.
\<close>

lemma capacity_of_known:
  "warehouse_capacities f w = Some (Some c) \<Longrightarrow> capacity_of f w = Inr c"
  by (simp add: capacity_of_def)

lemma update_position_returns:
  assumes fc: "forecasts_inv f d (fst sp)"
    and w: "w \<in> set warehouses" and p: "p \<in> set products"
    and cap: "warehouse_capacities f w = Some (Some c)" and nz: "c \<noteq> 0"
  shows "\<exists>u. update_position f d w p sp = Inr u \<and> forecasts_inv f d (fst u)"
proof -
  obtain s pos where sp: "sp = (s, pos)" by (cases sp)
  have fin: "map_of (monthly_forecasts s (w, p, inflows)) d = Some (predict_flow f d w p inflows)"
    and fout: "map_of (monthly_forecasts s (w, p, outflows)) d = Some (predict_flow f d w p outflows)"
    using fc w p unfolding forecasts_inv_def sp by auto
  show ?thesis
    using fc unfolding update_position_def sp forecasts_inv_def
    by (simp add: fin fout capacity_of_known [OF cap] nz Let_def)
qed

lemma update_warehouse_returns:
  assumes fc: "forecasts_inv f d s"
    and w: "w \<in> set warehouses"
    and cap: "warehouse_capacities f w = Some (Some c)" and nz: "c \<noteq> 0"
  shows "\<exists>u. update_warehouse f d w s = Inr u \<and> forecasts_inv f d u"
proof -
  let ?pos0 = "\<lparr> date = d, position_products = [], warehouse_total_before = 0,
                 warehouse_total_after = 0, position_utilization = None \<rparr>"
  have "\<exists>sp. for_each (update_position f d w) products (s, ?pos0) = Inr sp
           \<and> forecasts_inv f d (fst sp)"
  proof (rule for_each_returns)
    show "forecasts_inv f d (fst (s, ?pos0))" using fc by simp
  next
    fix x and t :: "simulation \<times> monthly_position"
    assume "x \<in> set products" and "forecasts_inv f d (fst t)"
    then show "\<exists>u. update_position f d w x t = Inr u \<and> forecasts_inv f d (fst u)"
      using update_position_returns [OF _ w _ cap nz] by blast
  qed
  then obtain s1 pos where
    loop: "for_each (update_position f d w) products (s, ?pos0) = Inr (s1, pos)"
    and fc1: "forecasts_inv f d s1"
    by auto
  have mf: "monthly_forecasts (emit_alert w d v s1) = monthly_forecasts s1" for v
    by (rule emit_alert_frame)
  show ?thesis
    using fc1 unfolding update_warehouse_def forecasts_inv_def
    by (simp add: loop capacity_of_known [OF cap] nz Let_def mf)
qed

lemma simulate_month_returns:
  assumes caps: "\<And>w. w \<in> set warehouses \<Longrightarrow>
                   \<exists>c. warehouse_capacities f w = Some (Some c) \<and> c \<noteq> 0"
  shows "\<exists>u. simulate_month f d s = Inr u"
proof -
  have "\<exists>u. for_each (update_warehouse f d) warehouses (predict_flows f d s) = Inr u
          \<and> forecasts_inv f d u"
  proof (rule for_each_returns)
    show "forecasts_inv f d (predict_flows f d s)"
      unfolding forecasts_inv_def by (simp add: predict_flows_lookup)
  next
    fix x t
    assume x: "x \<in> set warehouses" and fc: "forecasts_inv f d t"
    from caps [OF x] obtain c where "warehouse_capacities f x = Some (Some c)" "c \<noteq> 0"
      by blast
    then show "\<exists>u. update_warehouse f d x t = Inr u \<and> forecasts_inv f d u"
      using update_warehouse_returns [OF fc x] by blast
  qed
  then show ?thesis
    by (auto simp add: simulate_month_def)
qed

lemma generate_returns:
  assumes caps: "\<And>w. w \<in> set warehouses \<Longrightarrow>
                   \<exists>c. warehouse_capacities f w = Some (Some c) \<and> c \<noteq> 0"
  shows "\<exists>r. generate_rolling_forecast f h = Inr r"
proof -
  have "\<exists>s0. for_each (register_warehouse f) warehouses (initial_simulation f h) = Inr s0 \<and> True"
  proof (rule for_each_returns)
    show True ..
  next
    fix x and t :: simulation
    assume "x \<in> set warehouses"
    from caps [OF this] show "\<exists>u. register_warehouse f x t = Inr u \<and> True"
      by (auto simp add: register_warehouse_def)
  qed
  then obtain s0 where
    init: "for_each (register_warehouse f) warehouses (initial_simulation f h) = Inr s0"
    by blast
  have "\<exists>s. for_each (simulate_month f) (forecast_dates h) s0 = Inr s \<and> True"
  proof (rule for_each_returns)
    show True ..
  next
    fix x and t :: simulation
    show "\<exists>u. simulate_month f x t = Inr u \<and> True"
      using simulate_month_returns [OF caps] by simp
  qed
  then obtain s where loop: "for_each (simulate_month f) (forecast_dates h) s0 = Inr s"
    by blast
  show ?thesis
    by (simp add: generate_rolling_forecast_def init loop)
qed

subsection \<open>The ledger of a product\<close>

lemma map_of_snoc_fresh: "map_of xs k = None \<Longrightarrow> map_of (xs @ [(k, v)]) k = Some v"
  by (simp add: map_add_def)

lemma ledger_lookup:
  "i < h \<Longrightarrow> map_of (map (ledger f w p) [0..<h]) (forecast_date i) = Some (snd (ledger f w p i))"
proof (induction h)
  case 0
  then show ?case by simp
next
  case (Suc h)
  show ?case
  proof (cases "i < h")
    case True
    with Suc.IH show ?thesis by (simp add: map_add_def)
  next
    case False
    with Suc.prems have i: "i = h" by simp
    have "forecast_date h \<notin> fst ` set (map (ledger f w p) [0..<h])"
      by (auto simp add: ledger_def dest: forecast_date_inj)
    then have none: "map_of (map (ledger f w p) [0..<h]) (forecast_date h) = None"
      by (simp add: map_of_eq_None_iff)
    have snoc: "map (ledger f w p) [0..<Suc h]
                  = map (ledger f w p) [0..<h] @ [(forecast_date h, snd (ledger f w p h))]"
      by (simp add: ledger_def)
    show ?thesis
      unfolding i snoc using none by (rule map_of_snoc_fresh)
  qed
qed

lemma ledger_keys: "map fst (map (ledger f w p) [0..<h]) = forecast_dates h"
  by (simp add: forecast_dates_def ledger_def comp_def)

lemma trickle_capacities:
  "w \<in> set warehouses \<Longrightarrow>
   \<exists>c. warehouse_capacities trickle_forecaster w = Some (Some c) \<and> c \<noteq> 0"
  by (simp add: trickle_forecaster_def)

lemma trickle_flows:
  "inflow_of trickle_forecaster ''Atlanta'' ''Footwear'' i = 1.4"
  "outflow_of trickle_forecaster ''Atlanta'' ''Footwear'' i = 0.8"
  by (simp_all add: inflow_of_def outflow_of_def predict_flow_def trickle_forecaster_def
      mean_def Let_def)

lemma trickle_capacity: "the_capacity trickle_forecaster w = 100"
  by (simp add: the_capacity_def capacity_of_def trickle_forecaster_def)

lemma trickle_ledger:
  "snd (ledger trickle_forecaster ''Atlanta'' ''Footwear'' 0) =
     \<lparr> starting_position = 0, inflow = 1, outflow = 1, net_flow = 1, ending_position = 1,
       capacity_utilization = 0.6 \<rparr>"
  "snd (ledger trickle_forecaster ''Atlanta'' ''Footwear'' (Suc 0)) =
     \<lparr> starting_position = 1, inflow = 1, outflow = 1, net_flow = 1, ending_position = 1,
       capacity_utilization = 1.2 \<rparr>"
proof -
  have start: "starting_inventory trickle_forecaster (''Atlanta'', ''Footwear'') = 0"
    by (simp add: trickle_forecaster_def)
  show "snd (ledger trickle_forecaster ''Atlanta'' ''Footwear'' 0) =
     \<lparr> starting_position = 0, inflow = 1, outflow = 1, net_flow = 1, ending_position = 1,
       capacity_utilization = 0.6 \<rparr>"
    by (simp add: ledger_def trickle_flows start trickle_capacity py_round_def py_round_n_def)
  show "snd (ledger trickle_forecaster ''Atlanta'' ''Footwear'' (Suc 0)) =
     \<lparr> starting_position = 1, inflow = 1, outflow = 1, net_flow = 1, ending_position = 1,
       capacity_utilization = 1.2 \<rparr>"
    by (simp add: ledger_def trickle_flows start trickle_capacity py_round_def py_round_n_def)
qed

text \<open>
  Claim C2. In a ledger that \<open>generate_rolling_forecast\<close> returns, the months of a product
  are recorded in chronological order, and for two consecutive months the starting position
  recorded for the later month equals the ending position recorded for the earlier one.
\<close>

theorem ledger_chained:
  assumes "generate_rolling_forecast f h = Inr r"
    and "w \<in> set warehouses" and "p \<in> set products" and "Suc i < h"
  shows "map fst (rolling_inventory r (w, p)) = forecast_dates h \<and>
         (\<exists>e e'. map_of (rolling_inventory r (w, p)) (forecast_date i) = Some e \<and>
                  map_of (rolling_inventory r (w, p)) (forecast_date (Suc i)) = Some e' \<and>
                  starting_position e' = ending_position e)"
proof -
  have led: "rolling_inventory r (w, p) = map (ledger f w p) [0..<h]"
    using generated_results(1) [OF assms(1) assms(2) assms(3)] .
  have i: "i < h" using assms(4) by simp
  have "map_of (rolling_inventory r (w, p)) (forecast_date i) = Some (snd (ledger f w p i))"
    unfolding led using i by (rule ledger_lookup)
  moreover have "map_of (rolling_inventory r (w, p)) (forecast_date (Suc i))
                   = Some (snd (ledger f w p (Suc i)))"
    unfolding led using assms(4) by (rule ledger_lookup)
  moreover have "starting_position (snd (ledger f w p (Suc i)))
                   = ending_position (snd (ledger f w p i))"
    by (simp add: ledger_def)
  moreover have "map fst (rolling_inventory r (w, p)) = forecast_dates h"
    unfolding led by (rule ledger_keys)
  ultimately show ?thesis by blast
qed

theorem ledger_chained_witness:
  "generate_rolling_forecast trickle_forecaster 2
     = Inr (projr (generate_rolling_forecast trickle_forecaster 2))
   \<and> map fst (rolling_inventory (projr (generate_rolling_forecast trickle_forecaster 2))
        (''Atlanta'', ''Footwear'')) = [(2023, 1), (2023, 2)]
   \<and> ending_position
        (recorded (generate_rolling_forecast trickle_forecaster 2) ''Atlanta'' ''Footwear'' 0) = 1
   \<and> starting_position
        (recorded (generate_rolling_forecast trickle_forecaster 2) ''Atlanta'' ''Footwear'' 1) = 1"
proof -
  let ?run = "generate_rolling_forecast trickle_forecaster 2"
  from generate_returns [of trickle_forecaster 2] trickle_capacities
  obtain r where run: "?run = Inr r" by blast
  have w: "''Atlanta'' \<in> set warehouses" and p: "''Footwear'' \<in> set products"
    by (simp_all add: warehouses_def products_def)
  from ledger_chained [OF run w p, of 0]
  obtain e e' where keys: "map fst (rolling_inventory r (''Atlanta'', ''Footwear'')) = forecast_dates 2"
    and e: "map_of (rolling_inventory r (''Atlanta'', ''Footwear'')) (forecast_date 0) = Some e"
    and e': "map_of (rolling_inventory r (''Atlanta'', ''Footwear'')) (forecast_date (Suc 0)) = Some e'"
    and chain: "starting_position e' = ending_position e"
    by auto
  have "rolling_inventory r (''Atlanta'', ''Footwear'')
          = map (ledger trickle_forecaster ''Atlanta'' ''Footwear'') [0..<2]"
    using generated_results(1) [OF run w p] .
  then have "map_of (rolling_inventory r (''Atlanta'', ''Footwear'')) (forecast_date 0)
          = Some (snd (ledger trickle_forecaster ''Atlanta'' ''Footwear'' 0))"
    by (simp only: ledger_lookup [of 0 2, simplified])
  with e have "e = snd (ledger trickle_forecaster ''Atlanta'' ''Footwear'' 0)"
    by simp
  then have end1: "ending_position e = 1"
    by (simp add: trickle_ledger)
  have dates: "forecast_dates 2 = [(2023, 1), (2023, 2)]"
    by (simp add: forecast_dates_def forecast_date_def numeral_2_eq_2)
  show ?thesis
    unfolding recorded_def run sum.sel
    using keys e e' chain end1 by (simp add: dates)
qed





subsection \<open>Alerts\<close>

lemma alert_for_filter:
  "filter (\<lambda>a. warehouse a = w \<and> alert_date a = forecast_date i) (alert_for f j w') =
     (if w' = w \<and> j = i then alert_for f i w else [])"
  by (auto simp add: alert_for_def dest: forecast_date_inj)

lemma month_alerts_filter:
  assumes w: "w \<in> set warehouses"
  shows "filter (\<lambda>a. warehouse a = w \<and> alert_date a = forecast_date i) (month_alerts f j) =
     (if j = i then alert_for f i w else [])"
proof -
  let ?P = "\<lambda>a. warehouse a = w \<and> alert_date a = forecast_date i"
  let ?h = "\<lambda>w'. filter ?P (alert_for f j w')"
  have eq: "filter ?P (month_alerts f j) = concat (map ?h warehouses)"
    by (simp add: month_alerts_def filter_concat comp_def)
  show ?thesis
  proof (cases "j = i")
    case True
    have "concat (map ?h warehouses) = ?h w"
      using warehouses_distinct w
      by (rule concat_map_single) (simp add: alert_for_filter)
    also have "\<dots> = alert_for f i w"
      using True by (simp add: alert_for_filter)
    finally have "filter ?P (month_alerts f j) = alert_for f i w"
      by (simp only: eq)
    then show ?thesis
      using True by simp
  next
    case False
    have "concat (map ?h warehouses) = []"
      by (rule concat_map_none) (simp add: alert_for_filter False)
    then show ?thesis
      using False by (simp add: eq)
  qed
qed

lemma alerts_filter:
  assumes w: "w \<in> set warehouses" and i: "i < h"
  shows "filter (\<lambda>a. warehouse a = w \<and> alert_date a = forecast_date i)
           (concat (map (month_alerts f) [0..<h])) = alert_for f i w"
proof -
  let ?P = "\<lambda>a. warehouse a = w \<and> alert_date a = forecast_date i"
  let ?h = "\<lambda>j. filter ?P (month_alerts f j)"
  have "filter ?P (concat (map (month_alerts f) [0..<h])) = concat (map ?h [0..<h])"
    by (simp add: filter_concat comp_def)
  also have "\<dots> = ?h i"
  proof (rule concat_map_single)
    show "distinct [0..<h]" by simp
    show "i \<in> set [0..<h]" using i by simp
    show "?h y = []" if "y \<in> set [0..<h]" "y \<noteq> i" for y
      using that by (simp add: month_alerts_filter [OF w])
  qed
  also have "\<dots> = alert_for f i w"
    by (simp add: month_alerts_filter [OF w])
  finally show ?thesis .
qed

lemma full_atlanta_capacities:
  "w \<in> set warehouses \<Longrightarrow>
   \<exists>c. warehouse_capacities full_atlanta w = Some (Some c) \<and> c \<noteq> 0"
  by (simp add: full_atlanta_def idle_forecaster_def)

lemma full_atlanta_flows:
  "inflow_of full_atlanta w p i = 0" "outflow_of full_atlanta w p i = 0"
  by (simp_all add: inflow_of_def outflow_of_def predict_flow_def full_atlanta_def
      idle_forecaster_def)

lemma full_atlanta_total: "total_after full_atlanta ''Atlanta'' 0 = 96"
  by (simp add: total_after_def products_def full_atlanta_flows)
     (simp add: full_atlanta_def idle_forecaster_def)

text \<open>
  Claim C7. The utilization of a warehouse in a month is its total after the month, the sum
  of the unrounded positions of its products, over its capacity, times 100. In a result that
  \<open>generate_rolling_forecast\<close> returns, the alerts of a warehouse and month are exactly one
  alert of type \<^verbatim>\<open>OVER_CAPACITY\<close> if this utilization exceeds 90, with severity \<^verbatim>\<open>HIGH\<close> if it
  exceeds 95 and \<^verbatim>\<open>MEDIUM\<close> otherwise, and no alert if it does not exceed 90.
\<close>

theorem over_capacity_alerts:
  assumes "generate_rolling_forecast f h = Inr r"
    and "w \<in> set warehouses" and "i < h"
    and "warehouse_capacities f w = Some (Some c)"
  shows "warehouse_total_after (monthly_positions r w ! i)
           = sum_list (map (\<lambda>p. carried_position f w p (Suc i)) products)
       \<and> filter (\<lambda>a. warehouse a = w \<and> alert_date a = forecast_date i) (alerts r) =
           (if warehouse_total_after (monthly_positions r w ! i) / c * 100 > 90
            then [\<lparr> warehouse = w, alert_date = forecast_date i, alert_type = ''OVER_CAPACITY'',
                    severity = (if warehouse_total_after (monthly_positions r w ! i) / c * 100 > 95
                                then ''HIGH'' else ''MEDIUM'') \<rparr>]
            else [])"
proof -
  have tot: "map warehouse_total_after (monthly_positions r w) = map (total_after f w) [0..<h]"
    using generated_results(2) [OF assms(1) assms(2)] .
  then have "length (monthly_positions r w) = h"
    by (metis length_map length_upt minus_nat.diff_0)
  then have "warehouse_total_after (monthly_positions r w ! i)
               = map warehouse_total_after (monthly_positions r w) ! i"
    using assms(3) by simp
  also have "\<dots> = total_after f w i"
    unfolding tot using assms(3) by simp
  finally have total: "warehouse_total_after (monthly_positions r w ! i) = total_after f w i" .
  have cap: "the_capacity f w = c"
    using assms(4) by (simp add: the_capacity_def capacity_of_def)
  have util: "utilization_of f w i = warehouse_total_after (monthly_positions r w ! i) / c * 100"
    by (simp add: utilization_of_def total cap)
  have "filter (\<lambda>a. warehouse a = w \<and> alert_date a = forecast_date i) (alerts r)
          = alert_for f i w"
    unfolding generated_results(3) [OF assms(1)]
    using assms(2) assms(3) by (rule alerts_filter)
  then show ?thesis
    unfolding alert_for_def util using total by (simp add: total_after_def)
qed

theorem over_capacity_alerts_witness:
  "generate_rolling_forecast full_atlanta 1
     = Inr (projr (generate_rolling_forecast full_atlanta 1))
   \<and> warehouse_capacities full_atlanta ''Atlanta'' = Some (Some 100)
   \<and> warehouse_total_after
        (monthly_positions (projr (generate_rolling_forecast full_atlanta 1)) ''Atlanta'' ! 0)
        / 100 * 100 = 96
   \<and> filter (\<lambda>a. warehouse a = ''Atlanta'' \<and> alert_date a = (2023, 1))
        (alerts (projr (generate_rolling_forecast full_atlanta 1)))
       = [\<lparr> warehouse = ''Atlanta'', alert_date = (2023, 1), alert_type = ''OVER_CAPACITY'',
            severity = ''HIGH'' \<rparr>]"
proof -
  let ?run = "generate_rolling_forecast full_atlanta 1"
  from generate_returns [of full_atlanta 1] full_atlanta_capacities
  obtain r where r: "?run = Inr r" by blast
  then have run: "?run = Inr (projr ?run)" by simp
  have w: "''Atlanta'' \<in> set warehouses"
    by (simp add: warehouses_def)
  have cap: "warehouse_capacities full_atlanta ''Atlanta'' = Some (Some 100)"
    by (simp add: full_atlanta_def idle_forecaster_def)
  have d: "forecast_date 0 = (2023, 1)"
    by (simp add: forecast_date_def)
  note t = over_capacity_alerts [OF run w _ cap, of 0, unfolded d]
  have total: "warehouse_total_after (monthly_positions (projr ?run) ''Atlanta'' ! 0) = 96"
    using t full_atlanta_total by (simp add: total_after_def)
  have "filter (\<lambda>a. warehouse a = ''Atlanta'' \<and> alert_date a = (2023, 1)) (alerts (projr ?run))
       = [\<lparr> warehouse = ''Atlanta'', alert_date = (2023, 1), alert_type = ''OVER_CAPACITY'',
            severity = ''HIGH'' \<rparr>]"
    using t unfolding total by simp
  then show ?thesis
    using run cap total by simp
qed

subsection \<open>Network summary\<close>

lemma py_round_of_int_diff: "py_round (of_int a - of_int b) = a - b"
  using py_round_of_int [of "a - b"] by simp

text \<open>
  Claim C10. The forecasts of the results are integers, so the totals the summary adds up
  are integers and rounding leaves them as they are: in the network summary of every result
  that \<open>generate_rolling_forecast\<close> returns, the net position is the projected inflow minus
  the projected outflow.
\<close>

theorem network_net_position_exact:
  assumes "generate_rolling_forecast f h = Inr r"
  shows "\<exists>ns. summary r = Some ns
           \<and> network_net_position ns
               = network_projected_inflow ns - network_projected_outflow ns"
proof -
  from generated_results(4) [OF assms] obtain r0 where
    "summary r = Some (generate_network_summary r0)" by blast
  then show ?thesis
    by (simp add: generate_network_summary_def Let_def py_round_of_int py_round_of_int_diff)
qed

subsection \<open>The stored forecasts\<close>

lemma store_prediction_forecasts:
  "forecasts (res (store_prediction f (forecast_date i) w p ft s)) k =
     (if k = (w, p, ft)
      then dict_set (forecast_date i) (snd (stored_forecast f w p ft i)) (forecasts (res s) k)
      else forecasts (res s) k)"
  by (simp add: store_prediction_def stored_forecast_def split: prod.splits)

lemma flows_forecasts:
  "forecasts (res (fold (store_prediction f (forecast_date i) w p) [inflows, outflows] s))
       (w', p', ft) =
     (if w' = w \<and> p' = p
      then dict_set (forecast_date i) (snd (stored_forecast f w p ft i))
             (forecasts (res s) (w', p', ft))
      else forecasts (res s) (w', p', ft))"
  by (cases ft) (simp_all add: store_prediction_forecasts)

lemma products_forecasts:
  assumes "distinct ps"
  shows "forecasts (res (fold (\<lambda>p. fold (store_prediction f (forecast_date i) w p)
                                     [inflows, outflows]) ps s)) (w', p', ft) =
     (if w' = w \<and> p' \<in> set ps
      then dict_set (forecast_date i) (snd (stored_forecast f w p' ft i))
             (forecasts (res s) (w', p', ft))
      else forecasts (res s) (w', p', ft))"
proof -
  define body where
    "body = (\<lambda>p. fold (store_prediction f (forecast_date i) w p) [inflows, outflows])"
  have step: "forecasts (res (body p t)) (w', p', ft) =
     (if w' = w \<and> p' = p
      then dict_set (forecast_date i) (snd (stored_forecast f w p ft i))
             (forecasts (res t) (w', p', ft))
      else forecasts (res t) (w', p', ft))" for p t w' p' ft
    unfolding body_def by (rule flows_forecasts)
  have "forecasts (res (fold body ps s)) (w', p', ft) =
     (if w' = w \<and> p' \<in> set ps
      then dict_set (forecast_date i) (snd (stored_forecast f w p' ft i))
             (forecasts (res s) (w', p', ft))
      else forecasts (res s) (w', p', ft))"
    using assms
  proof (induction ps arbitrary: s)
    case Nil
    then show ?case by simp
  next
    case (Cons p ps)
    then show ?case by (auto simp add: step)
  qed
  then show ?thesis unfolding body_def .
qed

lemma warehouses_forecasts:
  assumes "distinct ws" and "distinct ps"
  shows "forecasts (res (fold (\<lambda>w. fold (\<lambda>p. fold (store_prediction f (forecast_date i) w p)
                                     [inflows, outflows]) ps) ws s)) (w', p', ft) =
     (if w' \<in> set ws \<and> p' \<in> set ps
      then dict_set (forecast_date i) (snd (stored_forecast f w' p' ft i))
             (forecasts (res s) (w', p', ft))
      else forecasts (res s) (w', p', ft))"
proof -
  define body where
    "body = (\<lambda>w. fold (\<lambda>p. fold (store_prediction f (forecast_date i) w p)
                              [inflows, outflows]) ps)"
  have step: "forecasts (res (body w t)) (w', p', ft) =
     (if w' = w \<and> p' \<in> set ps
      then dict_set (forecast_date i) (snd (stored_forecast f w p' ft i))
             (forecasts (res t) (w', p', ft))
      else forecasts (res t) (w', p', ft))" for w t w' p' ft
    unfolding body_def using assms(2) by (rule products_forecasts)
  have "forecasts (res (fold body ws s)) (w', p', ft) =
     (if w' \<in> set ws \<and> p' \<in> set ps
      then dict_set (forecast_date i) (snd (stored_forecast f w' p' ft i))
             (forecasts (res s) (w', p', ft))
      else forecasts (res s) (w', p', ft))"
    using assms(1)
  proof (induction ws arbitrary: s)
    case Nil
    then show ?case by simp
  next
    case (Cons w ws)
    then show ?case by (auto simp add: step)
  qed
  then show ?thesis unfolding body_def .
qed

lemma stored_append:
  "dict_set (forecast_date k) (snd (stored_forecast f w p ft k))
     (map (stored_forecast f w p ft) [0..<k]) = map (stored_forecast f w p ft) [0..<Suc k]"
proof -
  have "forecast_date k \<notin> fst ` set (map (stored_forecast f w p ft) [0..<k])"
    by (auto simp add: stored_forecast_def dest: forecast_date_inj)
  then have "dict_set (forecast_date k) (snd (stored_forecast f w p ft k))
               (map (stored_forecast f w p ft) [0..<k])
     = map (stored_forecast f w p ft) [0..<k]
         @ [(forecast_date k, snd (stored_forecast f w p ft k))]"
    by (rule dict_set_fresh)
  also have "(forecast_date k, snd (stored_forecast f w p ft k)) = stored_forecast f w p ft k"
    by (simp add: stored_forecast_def)
  finally show ?thesis by simp
qed

lemma predict_flows_stored:
  assumes "stored_inv f k s"
  shows "stored_inv f (Suc k) (predict_flows f (forecast_date k) s)"
  unfolding stored_inv_def predict_flows_def
proof (intro ballI allI)
  fix w p ft
  assume w: "w \<in> set warehouses" and p: "p \<in> set products"
  have old: "forecasts (res s) (w, p, ft) = map (stored_forecast f w p ft) [0..<k]"
    using assms w p unfolding stored_inv_def by blast
  show "forecasts (res (fold (\<lambda>w. fold (\<lambda>p. fold (store_prediction f (forecast_date k) w p)
                   [inflows, outflows]) products) warehouses s)) (w, p, ft)
          = map (stored_forecast f w p ft) [0..<Suc k]"
    unfolding warehouses_forecasts [OF warehouses_distinct products_distinct]
    using w p by (simp only: if_True simp_thms old stored_append)
qed

lemma update_position_forecasts:
  "update_position f d w p sp = Inr sp' \<Longrightarrow> forecasts (res (fst sp')) = forecasts (res (fst sp))"
  unfolding update_position_def
  by (auto simp add: Let_def split: prod.splits option.splits sum.splits if_splits)

lemma update_warehouse_forecasts:
  assumes "update_warehouse f d w s = Inr s'"
  shows "forecasts (res s') = forecasts (res s)"
proof -
  let ?pos0 = "\<lparr> date = d, position_products = [], warehouse_total_before = 0,
                 warehouse_total_after = 0, position_utilization = None \<rparr>"
  from assms obtain sp where
    loop: "for_each (update_position f d w) products (s, ?pos0) = Inr sp"
    unfolding update_warehouse_def by (auto split: sum.splits)
  have kept: "forecasts (res (fst sp)) = forecasts (res s)"
  proof (rule for_each_invariant [OF loop, where I = "\<lambda>ps t. forecasts (res (fst t)) = forecasts (res s)"])
    show "forecasts (res (fst (s, ?pos0))) = forecasts (res s)" by simp
  next
    fix ys x zs and t u :: "simulation \<times> monthly_position"
    assume "forecasts (res (fst t)) = forecasts (res s)"
      and "update_position f d w x t = Inr u"
    then show "forecasts (res (fst u)) = forecasts (res s)"
      using update_position_forecasts [of f d w x t u] by simp
  qed
  have al: "forecasts (res (emit_alert w d v t)) = forecasts (res t)" for v t
    by (simp add: emit_alert_def Let_def)
  from assms show ?thesis
    unfolding update_warehouse_def
    by (auto simp add: loop Let_def al kept [symmetric]
             split: sum.splits prod.splits if_splits)
qed

lemma simulate_month_stored:
  assumes run: "simulate_month f (forecast_date k) s = Inr s'" and st: "stored_inv f k s"
  shows "stored_inv f (Suc k) s'"
proof -
  let ?s1 = "predict_flows f (forecast_date k) s"
  from run have loop: "for_each (update_warehouse f (forecast_date k)) warehouses ?s1 = Inr s'"
    by (simp add: simulate_month_def)
  have "forecasts (res s') = forecasts (res ?s1)"
  proof (rule for_each_invariant [OF loop, where I = "\<lambda>ws t. forecasts (res t) = forecasts (res ?s1)"])
    show "forecasts (res ?s1) = forecasts (res ?s1)" ..
  next
    fix ys x zs and t u :: simulation
    assume "forecasts (res t) = forecasts (res ?s1)"
      and "update_warehouse f (forecast_date k) x t = Inr u"
    then show "forecasts (res u) = forecasts (res ?s1)"
      using update_warehouse_forecasts [of f "forecast_date k" x t u] by simp
  qed
  then show ?thesis
    using predict_flows_stored [OF st] unfolding stored_inv_def by simp
qed

lemma months_stored:
  assumes run: "for_each (simulate_month f) (forecast_dates h) s = Inr s'"
    and st: "stored_inv f 0 s"
  shows "stored_inv f h s'"
proof -
  have "stored_inv f (length (forecast_dates h)) s'"
  proof (rule for_each_invariant [OF run, where I = "\<lambda>ds t. stored_inv f (length ds) t"])
    show "stored_inv f (length []) s" using st by simp
  next
    fix ys x zs and t u :: simulation
    assume parts: "forecast_dates h = ys @ x # zs" and inv: "stored_inv f (length ys) t"
      and step: "simulate_month f x t = Inr u"
    have x: "x = forecast_date (length ys)"
      using parts by (rule forecast_dates_nth)
    show "stored_inv f (length (ys @ [x])) u"
      using simulate_month_stored [OF step [unfolded x] inv] by simp
  qed
  then show ?thesis by (simp add: forecast_dates_def)
qed

lemma registered_stored:
  assumes run: "for_each (register_warehouse f) warehouses (initial_simulation f h) = Inr s"
  shows "stored_inv f 0 s"
proof -
  have "forecasts (res s) = (\<lambda>k. [])"
  proof (rule for_each_invariant [OF run, where I = "\<lambda>ws t. forecasts (res t) = (\<lambda>k. [])"])
    show "forecasts (res (initial_simulation f h)) = (\<lambda>k. [])"
      by (simp add: initial_simulation_def)
  next
    fix ys x zs and t u :: simulation
    assume "forecasts (res t) = (\<lambda>k. [])" and "register_warehouse f x t = Inr u"
    then show "forecasts (res u) = (\<lambda>k. [])"
      by (auto simp add: register_warehouse_def split: option.splits)
  qed
  then show ?thesis by (simp add: stored_inv_def)
qed

lemma generated_summary:
  assumes run: "generate_rolling_forecast f h = Inr r"
  shows "summary r = Some (generate_network_summary r)"
    and "\<And>w p ft. w \<in> set warehouses \<Longrightarrow> p \<in> set products \<Longrightarrow>
           forecasts r (w, p, ft) = map (stored_forecast f w p ft) [0..<h]"
proof -
  from run obtain s0 s where
    init: "for_each (register_warehouse f) warehouses (initial_simulation f h) = Inr s0"
    and loop: "for_each (simulate_month f) (forecast_dates h) s0 = Inr s"
    and r: "r = (res s)\<lparr> summary := Some (generate_network_summary (res s)) \<rparr>"
    unfolding generate_rolling_forecast_def
    by (auto split: sum.splits)
  have same: "generate_network_summary r = generate_network_summary (res s)"
    by (simp add: r generate_network_summary_def)
  show "summary r = Some (generate_network_summary r)"
    unfolding same by (simp add: r)
  note fin = months_stored [OF loop registered_stored [OF init]]
  show "forecasts r (w, p, ft) = map (stored_forecast f w p ft) [0..<h]"
    if "w \<in> set warehouses" "p \<in> set products" for w p ft
    using fin that unfolding stored_inv_def by (simp add: r)
qed

lemma surplus_capacities:
  "w \<in> set warehouses \<Longrightarrow>
   \<exists>c. warehouse_capacities surplus_forecaster w = Some (Some c) \<and> c \<noteq> 0"
  by (simp add: surplus_forecaster_def)

lemma surplus_forecasts:
  "py_round (fst (predict_flow surplus_forecaster d w p ft)) =
     (if (w, p, ft) = (''Atlanta'', ''Footwear'', inflows) then 3
      else if (w, p, ft) = (''Atlanta'', ''Footwear'', outflows) then 1 else 0)"
  by (simp add: predict_flow_def surplus_forecaster_def mean_def py_round_def Let_def)

lemma surplus_totals:
  assumes run: "generate_rolling_forecast surplus_forecaster 2 = Inr r"
  shows "per_product (\<lambda>(w, p). sum_list (map (\<lambda>kv. forecast (snd kv))
           (forecasts r (w, p, inflows)))) = 6"
    and "per_product (\<lambda>(w, p). sum_list (map (\<lambda>kv. forecast (snd kv))
           (forecasts r (w, p, outflows)))) = 2"
proof -
  have two: "[0..<2] = [0, Suc 0]"
    by (simp add: numeral_2_eq_2)
  have fc: "sum_list (map (\<lambda>kv. forecast (snd kv)) (forecasts r (w, p, ft)))
              = 2 * (if (w, p, ft) = (''Atlanta'', ''Footwear'', inflows) then 3
                     else if (w, p, ft) = (''Atlanta'', ''Footwear'', outflows) then 1 else 0)"
    if "w \<in> set warehouses" "p \<in> set products" for w p ft
    unfolding generated_summary(2) [OF run that] two
    by (simp add: stored_forecast_def surplus_forecasts)
  have mem: "''Atlanta'' \<in> set warehouses" "''Nashville'' \<in> set warehouses"
    "''Chicago'' \<in> set warehouses" "''NY'' \<in> set warehouses" "''LA'' \<in> set warehouses"
    "''Footwear'' \<in> set products" "''Apparel'' \<in> set products"
    by (simp_all add: warehouses_def products_def)
  have expand: "per_product g =
      g (''Atlanta'', ''Footwear'') + g (''Atlanta'', ''Apparel'')
      + (g (''Nashville'', ''Footwear'') + g (''Nashville'', ''Apparel'')
      + (g (''Chicago'', ''Footwear'') + g (''Chicago'', ''Apparel'')
      + (g (''NY'', ''Footwear'') + g (''NY'', ''Apparel'')
      + (g (''LA'', ''Footwear'') + g (''LA'', ''Apparel'')))))" for g
    by (simp add: per_product_def warehouses_def products_def)
  show "per_product (\<lambda>(w, p). sum_list (map (\<lambda>kv. forecast (snd kv))
           (forecasts r (w, p, inflows)))) = 6"
    unfolding expand by (simp add: fc mem)
  show "per_product (\<lambda>(w, p). sum_list (map (\<lambda>kv. forecast (snd kv))
           (forecasts r (w, p, outflows)))) = 2"
    unfolding expand by (simp add: fc mem)
qed

theorem network_net_position_exact_witness:
  "generate_rolling_forecast surplus_forecaster 2
     = Inr (projr (generate_rolling_forecast surplus_forecaster 2))
   \<and> network_projected_inflow
        (the (summary (projr (generate_rolling_forecast surplus_forecaster 2)))) = 6
   \<and> network_projected_outflow
        (the (summary (projr (generate_rolling_forecast surplus_forecaster 2)))) = 2
   \<and> network_net_position
        (the (summary (projr (generate_rolling_forecast surplus_forecaster 2)))) = 4"
proof -
  let ?run = "generate_rolling_forecast surplus_forecaster 2"
  from generate_returns [of surplus_forecaster 2] surplus_capacities
  obtain r where r: "?run = Inr r" by blast
  then have run: "?run = Inr (projr ?run)" by simp
  have s: "summary (projr ?run) = Some (generate_network_summary (projr ?run))"
    using run by (rule generated_summary(1))
  note tot = surplus_totals [OF run]
  have i: "network_projected_inflow (the (summary (projr ?run))) = 6"
    unfolding s option.sel
    by (simp add: generate_network_summary_def Let_def tot py_round_of_int [of 6, simplified])
  have out: "network_projected_outflow (the (summary (projr ?run))) = 2"
    unfolding s option.sel
    by (simp add: generate_network_summary_def Let_def tot py_round_of_int [of 2, simplified])
  from network_net_position_exact [OF run] have
    "network_net_position (the (summary (projr ?run)))
       = network_projected_inflow (the (summary (projr ?run)))
         - network_projected_outflow (the (summary (projr ?run)))"
    by auto
  then have "network_net_position (the (summary (projr ?run))) = 4"
    unfolding i out by simp
  then show ?thesis
    using run i out by simp
qed

section \<open>Scenario runs and the baseline\<close>

lemmas heap_eval =
  baseline_heap_def baseline_analysis_def heap_after_def analysis_in_def
  load_capacity_analysis_def load_analysis_def fetch_def store_analysis_def empty_heap_def
  simulate_high_demand_scenario_def simulate_warehouse_def set_load_def set_increasing_def
  bind_risk_assessment_def recalculate_available_capacity_def shallow_copy_def
  update_warehouse_info_def update_utilization_metrics_def update_trend_analysis_def
  example_network_def example_analysis_def py_round_def py_round_n_def Let_def

text \<open>
  Claim C3: running a scenario leaves the baseline analysis as it was, because the scenario
  works on a deep copy. \<^verbatim>\<open>apply_scenario_changes\<close> copies with \<^verbatim>\<open>copy.deepcopy\<close>, documented as
  \<^verbatim>\<open>Deep copy dictionary to avoid reference issues\<close>;
  \<^verbatim>\<open>simulate_high_demand_scenario\<close> copies with \<^verbatim>\<open>data.copy()\<close>, which shares the nested
  dictionaries with the baseline, and assigns into them. On the example network, where the
  baseline records Atlanta at 90\% with 90000 units and a stable trend, the baseline reads
  85\%, 85000 units and an increasing trend after the scenario has run.
\<close>

theorem high_demand_scenario_mutates_baseline:
  "simulate_high_demand_scenario baseline_analysis baseline_heap
     = Inr (projr (simulate_high_demand_scenario baseline_analysis baseline_heap))
   \<and> final_utilization (utilization_metrics
        (analysis_in baseline_heap baseline_analysis ''Atlanta'')) = 90
   \<and> current_inventory (warehouse_info
        (analysis_in baseline_heap baseline_analysis ''Atlanta'')) = 90000
   \<and> trend_direction (trend_analysis
        (analysis_in baseline_heap baseline_analysis ''Atlanta'')) = ''Stable''
   \<and> final_utilization (utilization_metrics
        (analysis_in (heap_after (simulate_high_demand_scenario baseline_analysis baseline_heap))
           baseline_analysis ''Atlanta'')) = 85
   \<and> current_inventory (warehouse_info
        (analysis_in (heap_after (simulate_high_demand_scenario baseline_analysis baseline_heap))
           baseline_analysis ''Atlanta'')) = 85000
   \<and> trend_direction (trend_analysis
        (analysis_in (heap_after (simulate_high_demand_scenario baseline_analysis baseline_heap))
           baseline_analysis ''Atlanta'')) = ''Increasing''
   \<and> load_capacity_analysis
        (heap_after (simulate_high_demand_scenario baseline_analysis baseline_heap))
        baseline_analysis
       \<noteq> load_capacity_analysis baseline_heap baseline_analysis"
  by (simp add: heap_eval)

subsection \<open>The deep copy keeps the baseline\<close>

lemma prefix_length:
  assumes "take (length xs) ys = xs"
  shows "length xs \<le> length ys"
proof -
  have "length (take (length xs) ys) = length xs" by (simp only: assms)
  then show ?thesis by simp
qed

lemma prefix_fetch:
  assumes "take (length xs) ys = xs" and "a < length xs"
  shows "fetch ys a = fetch xs a"
proof -
  have "length xs \<le> length ys" using assms(1) by (rule prefix_length)
  moreover have "ys ! a = take (length xs) ys ! a" using assms(2) by simp
  ultimately show ?thesis using assms by (simp add: fetch_def)
qed

lemma prefix_update: "take n ys = xs \<Longrightarrow> n \<le> a \<Longrightarrow> take n (ys[a := v]) = xs"
  by simp

lemma prefix_append: "take (length xs) ys = xs \<Longrightarrow> take (length xs) (ys @ zs) = xs"
  using prefix_length [of xs ys] by simp

lemma extends_refl: "extends h h"
  by (simp add: extends_def)

lemma extends_lengths:
  assumes "extends h h'"
  shows "length (warehouse_info_objects h) \<le> length (warehouse_info_objects h')"
    and "length (utilization_metrics_objects h) \<le> length (utilization_metrics_objects h')"
    and "length (trend_analysis_objects h) \<le> length (trend_analysis_objects h')"
    and "length (risk_assessment_objects h) \<le> length (risk_assessment_objects h')"
    and "length (timeline_data_objects h) \<le> length (timeline_data_objects h')"
  using assms unfolding extends_def by (auto intro: prefix_length)

lemma load_extends:
  assumes "extends h h'" and "allocated h d"
  shows "load_analysis h' d = load_analysis h d"
proof -
  have "fetch (warehouse_info_objects h') (warehouse_info_ref d)
          = fetch (warehouse_info_objects h) (warehouse_info_ref d)"
    and "fetch (utilization_metrics_objects h') (utilization_metrics_ref d)
          = fetch (utilization_metrics_objects h) (utilization_metrics_ref d)"
    and "fetch (trend_analysis_objects h') (trend_analysis_ref d)
          = fetch (trend_analysis_objects h) (trend_analysis_ref d)"
    and "fetch (risk_assessment_objects h') (risk_assessment_ref d)
          = fetch (risk_assessment_objects h) (risk_assessment_ref d)"
    and "fetch (timeline_data_objects h') (timeline_data_ref d)
          = fetch (timeline_data_objects h) (timeline_data_ref d)"
    using assms unfolding extends_def allocated_def by (blast intro: prefix_fetch)+
  then show ?thesis
    unfolding load_analysis_def by (simp only:)
qed

lemma extends_update_warehouse_info:
  "extends h0 h \<Longrightarrow> length (warehouse_info_objects h0) \<le> a
     \<Longrightarrow> extends h0 (update_warehouse_info a g h)"
  unfolding extends_def update_warehouse_info_def by simp

lemma extends_update_utilization_metrics:
  "extends h0 h \<Longrightarrow> length (utilization_metrics_objects h0) \<le> a
     \<Longrightarrow> extends h0 (update_utilization_metrics a g h)"
  unfolding extends_def update_utilization_metrics_def by simp

lemma extends_update_trend_analysis:
  "extends h0 h \<Longrightarrow> length (trend_analysis_objects h0) \<le> a
     \<Longrightarrow> extends h0 (update_trend_analysis a g h)"
  unfolding extends_def update_trend_analysis_def by simp

lemma bind_risk_assessment_extends:
  assumes "extends h0 h" and "new_to h0 d"
  shows "extends h0 (fst (bind_risk_assessment r (h, d)))"
    and "new_to h0 (snd (bind_risk_assessment r (h, d)))"
proof -
  show "extends h0 (fst (bind_risk_assessment r (h, d)))"
    using assms(1) extends_lengths [OF assms(1)]
    unfolding extends_def bind_risk_assessment_def by simp
  show "new_to h0 (snd (bind_risk_assessment r (h, d)))"
    using assms(2) extends_lengths(4) [OF assms(1)]
    unfolding new_to_def bind_risk_assessment_def by simp
qed

lemma store_analysis_extends:
  assumes "extends h0 h"
  shows "extends h0 (fst (store_analysis a h))"
    and "new_to h0 (snd (store_analysis a h))"
proof -
  show "extends h0 (fst (store_analysis a h))"
    using assms extends_lengths [OF assms]
    unfolding extends_def store_analysis_def by simp
  show "new_to h0 (snd (store_analysis a h))"
    using extends_lengths [OF assms]
    unfolding new_to_def store_analysis_def by simp
qed

lemma recalculate_available_capacity_extends:
  assumes "recalculate_available_capacity d h = Inr h'" and "extends h0 h" and "new_to h0 d"
  shows "extends h0 h'"
proof -
  have a: "length (warehouse_info_objects h0) \<le> warehouse_info_ref d"
    using assms(3) by (simp add: new_to_def)
  from assms(1) obtain g1 g2 where
    "h' = update_warehouse_info (warehouse_info_ref d) g2
            (update_warehouse_info (warehouse_info_ref d) g1 h)"
    unfolding recalculate_available_capacity_def
    by (auto simp add: Let_def split: option.splits if_splits)
  then show ?thesis
    using assms(2) a by (simp add: extends_update_warehouse_info)
qed

lemma apply_target_utilization_extends:
  assumes "apply_target_utilization c d h = Inr h'" and "extends h0 h" and "new_to h0 d"
  shows "extends h0 h'"
proof (cases "target_utilization c")
  case None
  with assms show ?thesis by (simp add: apply_target_utilization_def)
next
  case (Some target)
  have a: "length (warehouse_info_objects h0) \<le> warehouse_info_ref d"
    and b: "length (utilization_metrics_objects h0) \<le> utilization_metrics_ref d"
    using assms(3) by (simp_all add: new_to_def)
  from assms(1) Some obtain g1 g2 where
    "h' = update_utilization_metrics (utilization_metrics_ref d) g2
            (update_warehouse_info (warehouse_info_ref d) g1 h)"
    unfolding apply_target_utilization_def
    by (auto simp add: Let_def split: option.splits)
  then show ?thesis
    using assms(2) a b
    by (simp add: extends_update_warehouse_info extends_update_utilization_metrics)
qed

lemma apply_trend_direction_extends:
  assumes "extends h0 h" and "new_to h0 d"
  shows "extends h0 (apply_trend_direction c d h)"
  using assms unfolding apply_trend_direction_def
  by (auto simp add: new_to_def extends_update_trend_analysis split: option.splits)

lemma apply_warehouse_changes_extends:
  assumes run: "apply_warehouse_changes c d h = Inr (h', d')"
    and ext: "extends h0 h" and new: "new_to h0 d"
  shows "extends h0 h'" and "new_to h0 d'"
proof -
  from run obtain h1 r where
    h1: "apply_target_utilization c d h = Inr h1"
    and rec: "recalculate_available_capacity
                (snd (bind_risk_assessment r (apply_trend_direction c d h1, d)))
                (fst (bind_risk_assessment r (apply_trend_direction c d h1, d))) = Inr h'"
    and d': "d' = snd (bind_risk_assessment r (apply_trend_direction c d h1, d))"
    unfolding apply_warehouse_changes_def
    by (auto simp add: Let_def split: sum.splits option.splits)
  have e1: "extends h0 h1"
    using h1 ext new by (rule apply_target_utilization_extends)
  have e2: "extends h0 (apply_trend_direction c d h1)"
    using e1 new by (rule apply_trend_direction_extends)
  note b = bind_risk_assessment_extends [OF e2 new, of r]
  show "new_to h0 d'"
    unfolding d' by (rule b(2))
  show "extends h0 h'"
    using rec b by (rule recalculate_available_capacity_extends)
qed

lemma dict_set_values: "snd ` set (dict_set k v kvs) \<subseteq> insert v (snd ` set kvs)"
  by (induction kvs) auto

lemma change_warehouse_extends:
  assumes run: "change_warehouse cfg (w, data) (h, sa) = Inr (h', sa')"
    and ext: "extends h0 h" and new: "\<And>d. d \<in> snd ` set sa \<Longrightarrow> new_to h0 d"
  shows "extends h0 h'" and "\<And>d. d \<in> snd ` set sa' \<Longrightarrow> new_to h0 d"
proof -
  from run obtain a where a: "load_analysis h data = Some a"
    unfolding change_warehouse_def deep_copy_dict_def
    by (auto split: option.splits)
  let ?h1 = "fst (store_analysis a h)" and ?d1 = "snd (store_analysis a h)"
  note st = store_analysis_extends [OF ext, of a]
  let ?c = "case warehouse_changes cfg w of None \<Rightarrow> no_changes | Some c \<Rightarrow> c"
  have both: "extends h0 h' \<and> (\<exists>d2. new_to h0 d2 \<and> sa' = dict_set w d2 sa)"
  proof (cases "nonempty ?c")
    case True
    with run a obtain d2 where
      ch: "apply_warehouse_changes ?c ?d1 ?h1 = Inr (h', d2)" and sa': "sa' = dict_set w d2 sa"
      unfolding change_warehouse_def deep_copy_dict_def
      by (auto simp add: Let_def split: sum.splits prod.splits)
    from apply_warehouse_changes_extends [OF ch st] sa' show ?thesis by blast
  next
    case False
    with run a have "h' = ?h1" and "sa' = dict_set w ?d1 sa"
      unfolding change_warehouse_def deep_copy_dict_def
      by (auto simp add: Let_def split: prod.splits)
    with st show ?thesis by blast
  qed
  then show "extends h0 h'" by blast
  from both obtain d2 where d2: "new_to h0 d2" and sa': "sa' = dict_set w d2 sa" by blast
  show "new_to h0 d" if "d \<in> snd ` set sa'" for d
  proof -
    from that have "d \<in> insert d2 (snd ` set sa)"
      unfolding sa' using dict_set_values [of w d2 sa] by blast
    then show ?thesis using d2 new by blast
  qed
qed

lemma apply_donation_extends:
  assumes run: "apply_donation event (h, sa) = Inr (h', sa')"
    and ext: "extends h0 h" and new: "\<And>d. d \<in> snd ` set sa \<Longrightarrow> new_to h0 d"
  shows "extends h0 h'"
proof (cases "map_of sa (donation_warehouse event)")
  case None
  with run ext show ?thesis by (simp add: apply_donation_def)
next
  case (Some target)
  then have "target \<in> snd ` set sa"
    by (metis map_of_SomeD image_eqI snd_conv)
  then have "new_to h0 target" by (rule new)
  then have a: "length (warehouse_info_objects h0) \<le> warehouse_info_ref target"
    and b: "length (utilization_metrics_objects h0) \<le> utilization_metrics_ref target"
    by (simp_all add: new_to_def)
  from run Some obtain g1 g2 where
    "h' = update_utilization_metrics (utilization_metrics_ref target) g2
            (update_warehouse_info (warehouse_info_ref target) g1 h)"
    unfolding apply_donation_def
    by (auto simp add: Let_def split: option.splits if_splits)
  then show ?thesis
    using ext a b
    by (simp add: extends_update_warehouse_info extends_update_utilization_metrics)
qed

text \<open>
  \<^verbatim>\<open>apply_scenario_changes\<close> writes only into the dictionaries it has copied: whatever the
  configuration, every dictionary of the baseline reads after the run as it read before.
\<close>

lemma apply_scenario_changes_keeps_baseline:
  assumes run: "apply_scenario_changes cfg base h = Inr (h', scenario_analysis)"
    and alloc: "\<And>d. d \<in> snd ` set base \<Longrightarrow> allocated h d"
  shows "load_capacity_analysis h' base = load_capacity_analysis h base"
proof -
  from run obtain h1 sa where
    loop: "for_each (change_warehouse cfg) base (h, []) = Inr (h1, sa)"
    and rest: "(case large_donation_event cfg of None \<Rightarrow> Inr (h1, sa)
                | Some event \<Rightarrow> apply_donation event (h1, sa)) = Inr (h', scenario_analysis)"
    unfolding apply_scenario_changes_def
    by (auto split: sum.splits)
  define I where "I = (\<lambda>(done :: (string \<times> analysis_dict) list) (state :: heap \<times> analysis_refs).
     extends h (fst state) \<and> (\<forall>d \<in> snd ` set (snd state). new_to h d))"
  have "I base (h1, sa)"
  proof (rule for_each_invariant [OF loop])
    show "I [] (h, [])" by (simp add: I_def extends_refl)
  next
    fix ys x zs t u
    assume inv: "I ys t" and step: "change_warehouse cfg x t = Inr u"
    obtain w data where x: "x = (w, data)" by (cases x)
    obtain ht sat where t: "t = (ht, sat)" by (cases t)
    obtain hu sau where u: "u = (hu, sau)" by (cases u)
    from inv have e: "extends h ht" and n: "\<And>d. d \<in> snd ` set sat \<Longrightarrow> new_to h d"
      by (auto simp add: I_def t)
    note ch = change_warehouse_extends [OF step [unfolded x t u] e n]
    show "I (ys @ [x]) u"
      using ch by (simp add: I_def u)
  qed
  then have e1: "extends h h1" and n1: "\<And>d. d \<in> snd ` set sa \<Longrightarrow> new_to h d"
    by (auto simp add: I_def)
  have ext: "extends h h'"
  proof (cases "large_donation_event cfg")
    case None
    with rest e1 show ?thesis by simp
  next
    case (Some event)
    with rest have "apply_donation event (h1, sa) = Inr (h', scenario_analysis)" by simp
    then show ?thesis using e1 n1 by (rule apply_donation_extends)
  qed
  show ?thesis
    unfolding load_capacity_analysis_def
    using alloc by (auto simp add: load_extends [OF ext])
qed

lemmas scenario_eval =
  apply_scenario_changes_def change_warehouse_def apply_warehouse_changes_def
  apply_target_utilization_def apply_trend_direction_def apply_donation_def deep_copy_dict_def
  nonempty_def no_changes_def crisis_config_def assess_capacity_risk_def utilization_rule_def
  peak_rule_def trend_rule_def level_of_score_def

text \<open>
  On the example network the crisis scenario with its donation returns, brings Chicago to
  80\% in the scenario and leaves the baseline as it was.
\<close>

lemma crisis_scenario_keeps_baseline:
  "apply_scenario_changes crisis_config baseline_analysis baseline_heap
     = Inr (projr (apply_scenario_changes crisis_config baseline_analysis baseline_heap))
   \<and> final_utilization (utilization_metrics
        (analysis_in
           (heap_after (apply_scenario_changes crisis_config baseline_analysis baseline_heap))
           (snd (projr (apply_scenario_changes crisis_config baseline_analysis baseline_heap)))
           ''Chicago'')) = 80
   \<and> load_capacity_analysis
        (heap_after (apply_scenario_changes crisis_config baseline_analysis baseline_heap))
        baseline_analysis
       = load_capacity_analysis baseline_heap baseline_analysis"
  by (simp add: heap_eval scenario_eval)
end
